theory Spec2Isabelle
  imports Main
begin

section \<open>dot2tex: the conversion driver of \<^verbatim>\<open>dot2tex.py\<close>\<close>

text \<open>
  The development embeds \<^verbatim>\<open>src/dot2tex/dot2tex.py\<close>: the option parser built by
  \<^verbatim>\<open>create_options_parser\<close>, \<^verbatim>\<open>convert_graph\<close>, and \<^verbatim>\<open>main\<close> on the path
  taken with \<^verbatim>\<open>run_as_module=True\<close> (the path of \<^verbatim>\<open>convert_graph\<close>).

  Conventions.
  \<^item> A Python \<^verbatim>\<open>str\<close> is a \<^typ>\<open>string\<close>; a \<^typ>\<open>char\<close> stands for the code point of the
    same number, so the texts covered are those with code points below 256.
  \<^item> An exception is a value of \<^verbatim>\<open>exn\<close>; a function that may raise returns
    \<^verbatim>\<open>exn + 'a\<close> with \<^verbatim>\<open>Inl\<close> for the exception.
  \<^item> \<^verbatim>\<open>options.__dict__\<close> and \<^verbatim>\<open>kwargs\<close> are maps from attribute names to values.
  \<^item> Calls to the logger return nothing and never change the control flow; they are
    left out.
  \<^item> The converter classes, the constants of \<^verbatim>\<open>base\<close> and the file system are not part
    of \<^verbatim>\<open>dot2tex.py\<close>; they are fields of an environment record that every function takes.
\<close>

subsection \<open>Values, exceptions, namespaces\<close>

datatype pyval = PNone | PBool bool | PInt int | PStr string

text \<open>Python truthiness, as used by \<^verbatim>\<open>if x:\<close> and \<^verbatim>\<open>x or y\<close>.\<close>

fun truthy :: "pyval \<Rightarrow> bool" where
  "truthy PNone = False"
| "truthy (PBool b) = b"
| "truthy (PInt i) = (i \<noteq> 0)"
| "truthy (PStr s) = (s \<noteq> [])"

datatype exn =
    SystemExit int
  | ParseException string
  | AttributeError string
  | OtherException string

type_synonym namespace = "string \<rightharpoonup> pyval"

text \<open>\<^verbatim>\<open>options.name\<close>: reading an attribute that is not set raises AttributeError.\<close>

definition getattr :: "namespace \<Rightarrow> string \<Rightarrow> exn + pyval" where
  "getattr ns name = (case ns name of None \<Rightarrow> Inl (AttributeError name) | Some v \<Rightarrow> Inr v)"

subsection \<open>Characters and lines\<close>

definition LF :: char where "LF = CHR 0x0A"
definition CR :: char where "CR = CHR 0x0D"
definition BSLASH :: char where "BSLASH = CHR 0x5C"
definition DQUOTE :: char where "DQUOTE = CHR 0x22"

text \<open>
  \<^verbatim>\<open>str.isspace\<close>, which is also the class \<^verbatim>\<open>\s\<close> of \<^verbatim>\<open>re\<close> on \<^verbatim>\<open>str\<close> patterns and what
  \<^verbatim>\<open>str.strip()\<close> and \<^verbatim>\<open>str.split()\<close> remove: below code point 256 these are
  U+0009..U+000D, U+001C..U+001F, U+0020, U+0085 and U+00A0.
\<close>

definition isspace :: "char \<Rightarrow> bool" where
  "isspace c = (c \<in> set [CHR 0x09, CHR 0x0A, CHR 0x0B, CHR 0x0C, CHR 0x0D,
                          CHR 0x1C, CHR 0x1D, CHR 0x1E, CHR 0x1F, CHR 0x20,
                          CHR 0x85, CHR 0xA0])"

text \<open>The line boundaries of \<^verbatim>\<open>str.splitlines\<close> below code point 256.\<close>

definition is_linebreak :: "char \<Rightarrow> bool" where
  "is_linebreak c = (c \<in> set [CHR 0x0A, CHR 0x0B, CHR 0x0C, CHR 0x0D,
                               CHR 0x1C, CHR 0x1D, CHR 0x1E, CHR 0x85])"

text \<open>
  \<^verbatim>\<open>dotdata.splitlines(True)\<close> (line 341): the lines with their terminators kept; CR LF is
  one terminator. The first argument is the line read so far, reversed.
\<close>

fun splitlines_acc :: "string \<Rightarrow> string \<Rightarrow> string list" where
  "splitlines_acc cur [] = (if cur = [] then [] else [rev cur])"
| "splitlines_acc cur [c] = [rev (c # cur)]"
| "splitlines_acc cur (c # d # cs) =
     (if c = CR \<and> d = LF then rev (d # c # cur) # splitlines_acc [] cs
      else if is_linebreak c then rev (c # cur) # splitlines_acc [] (d # cs)
      else splitlines_acc (c # cur) (d # cs))"

definition splitlines :: "string \<Rightarrow> string list" where
  "splitlines s = splitlines_acc [] s"

text \<open>\<^verbatim>\<open>line.strip()\<close> is empty exactly when every character of the line is white space.\<close>

definition blank :: "string \<Rightarrow> bool" where
  "blank l = list_all isspace l"

text \<open>
  Lines 366-367: \<^verbatim>\<open>lines = [line for line in dotdata if line.strip()]\<close> and
  \<^verbatim>\<open>dotdata = "".join(lines)\<close>.
\<close>

definition strip_blank_lines :: "string list \<Rightarrow> string" where
  "strip_blank_lines dotdata = concat (filter (\<lambda>line. \<not> blank line) dotdata)"

text \<open>\<^verbatim>\<open>s.split()\<close>: the maximal runs of characters that are not white space.\<close>

fun split_acc :: "string \<Rightarrow> string \<Rightarrow> string list" where
  "split_acc w [] = (if w = [] then [] else [rev w])"
| "split_acc w (c # cs) =
     (if isspace c then (if w = [] then split_acc [] cs else rev w # split_acc [] cs)
      else split_acc (c # w) cs)"

definition split_ws :: "string \<Rightarrow> string list" where
  "split_ws s = split_acc [] s"

subsection \<open>The three regular expressions of main\<close>

text \<open>
  \<^verbatim>\<open>.*?X\<close> for a closing character X: the shortest run of characters other than the
  line feed that is followed by X (\<^verbatim>\<open>.\<close> does not match a line feed).
\<close>

fun scan_until :: "char \<Rightarrow> string \<Rightarrow> string option" where
  "scan_until x [] = None"
| "scan_until x (c # cs) =
     (if c = x then Some []
      else if c = LF then None
      else map_option ((#) c) (scan_until x cs))"

text \<open>
  Line 345: the pattern \<^verbatim>\<open>^\s*\\input\{(?P<filename>.+?)\}\<close>, matched at the start of
  \<open>s\<close>; the result is the group \<^verbatim>\<open>filename\<close>. \<^verbatim>\<open>.+?\<close> takes at least one character.
\<close>

definition input_at :: "string \<Rightarrow> string option" where
  "input_at s =
     (let t = dropWhile isspace s in
      if take 7 t = BSLASH # ''input{'' then
        (case drop 7 t of
           [] \<Rightarrow> None
         | c # cs \<Rightarrow> if c = LF then None else map_option ((#) c) (scan_until (CHR ''}'') cs))
      else None)"

text \<open>
  \<^verbatim>\<open>re.search\<close> with \<^verbatim>\<open>re.MULTILINE\<close>: the match at the leftmost position that is a line
  start (the start of the text, or just after a line feed). \<open>bol\<close> says whether the
  current position is a line start.
\<close>

fun search_from :: "(string \<Rightarrow> string option) \<Rightarrow> bool \<Rightarrow> string \<Rightarrow> string option" where
  "search_from pat bol [] = None"
| "search_from pat bol (c # cs) =
     (case (if bol then pat (c # cs) else None) of
        Some g \<Rightarrow> Some g
      | None \<Rightarrow> search_from pat (c = LF) cs)"

definition search_input :: "string \<Rightarrow> string option" where
  "search_input s = search_from input_at True s"

text \<open>
  Line 409: the pattern \<^verbatim>\<open>^\s*d2toptions\s*=\s*"(.*?)"\s*;?\<close> matched at the start of \<open>s\<close>;
  the result is the group. \<^verbatim>\<open>re.findall\<close> lists the groups of the matches from left to
  right, and main uses \<^verbatim>\<open>extraoptions[0]\<close> when the list is not empty: the first match.
\<close>

definition d2toptions_at :: "string \<Rightarrow> string option" where
  "d2toptions_at s =
     (let t = dropWhile isspace s in
      if take 10 t = ''d2toptions'' then
        (case dropWhile isspace (drop 10 t) of
           [] \<Rightarrow> None
         | e # u \<Rightarrow>
             if e = CHR ''='' then
               (case dropWhile isspace u of
                  [] \<Rightarrow> None
                | q # v \<Rightarrow> if q = DQUOTE then scan_until DQUOTE v else None)
             else None)
      else None)"

definition first_d2toptions :: "string \<Rightarrow> string option" where
  "first_d2toptions dotdata = search_from d2toptions_at True dotdata"

text \<open>
  Line 408: \<^verbatim>\<open>re.findall(r'd2toutputformat=([a-z]*)', dotdata)\<close>; main uses \<^verbatim>\<open>fmtattr[0]\<close>
  when the list is not empty: the lower-case letters after the first occurrence of
  \<^verbatim>\<open>d2toutputformat=\<close>.
\<close>

definition is_lower :: "char \<Rightarrow> bool" where
  "is_lower c = (97 \<le> (of_char c :: nat) \<and> (of_char c :: nat) \<le> 122)"

fun first_fmtattr :: "string \<Rightarrow> string option" where
  "first_fmtattr [] = None"
| "first_fmtattr (c # cs) =
     (if take 16 (c # cs) = ''d2toutputformat='' then Some (takeWhile is_lower (drop 16 (c # cs)))
      else first_fmtattr cs)"

subsection \<open>Dispatch on the output format\<close>

datatype converter =
  Dot2PSTricksConv | Dot2PSTricksNConv | Dot2PGFConv | Dot2TikZConv | PositionsDotConv

text \<open>
  Lines 433-445: the chain of comparisons on \<^verbatim>\<open>output_format\<close>; the last branch logs
  "Unknown output format" and calls \<^verbatim>\<open>sys.exit(1)\<close>.
\<close>

definition select_converter :: "pyval \<Rightarrow> exn + converter" where
  "select_converter output_format =
     (if output_format \<in> set [PStr ''pstricks'', PStr ''pst''] then Inr Dot2PSTricksConv
      else if output_format = PStr ''psn'' then Inr Dot2PSTricksNConv
      else if output_format = PStr ''pgf'' then Inr Dot2PGFConv
      else if output_format = PStr ''tikz'' then Inr Dot2TikZConv
      else if output_format = PStr ''positions'' then Inr PositionsDotConv
      else Inl (SystemExit 1))"

subsection \<open>The option parser of \<^verbatim>\<open>create_options_parser\<close>\<close>

text \<open>
  \<^verbatim>\<open>create_options_parser\<close> (lines 74-231) builds an \<^verbatim>\<open>argparse.ArgumentParser\<close>. Each
  \<^verbatim>\<open>add_argument\<close> call with option strings is one entry below: the option strings, and
  the action with its \<^verbatim>\<open>dest\<close> and, for a storing action, its \<^verbatim>\<open>choices\<close>. The parser's
  own \<^verbatim>\<open>-h/--help\<close> comes first, as \<^verbatim>\<open>ArgumentParser\<close> adds it on creation.
\<close>

datatype action =
    Help
  | StoreTrue string
  | Store string "string list option"

definition optionals :: "(string list \<times> action) list" where
  "optionals =
    [([''-h'', ''--help''], Help),
     ([''-f'', ''--format''],
        Store ''format'' (Some [''pstricks'', ''pgf'', ''pst'', ''tikz'', ''psn''])),
     ([''-t'', ''--texmode''], Store ''texmode'' (Some [''math'', ''verbatim'', ''raw''])),
     ([''-d'', ''--duplicate''], StoreTrue ''duplicate''),
     ([''-s'', ''--straightedges''], StoreTrue ''straightedges''),
     ([''--template''], Store ''templatefile'' None),
     ([''-o'', ''--output''], Store ''outputfile'' None),
     ([''--force''], StoreTrue ''force''),
     ([''-e'', ''--encoding''], Store ''encoding'' (Some [''utf8'', ''latin1''])),
     ([''-V'', ''--version''], StoreTrue ''printversion''),
     ([''-w'', ''--switchdraworder''], StoreTrue ''switchdraworder''),
     ([''-p'', ''-c'', ''--preview'', ''--crop''], StoreTrue ''crop''),
     ([''--margin''], Store ''margin'' None),
     ([''--docpreamble''], Store ''docpreamble'' None),
     ([''--figpreamble''], Store ''figpreamble'' None),
     ([''--figpostamble''], Store ''figpostamble'' None),
     ([''--graphstyle''], Store ''graphstyle'' None),
     ([''--gvcols''], StoreTrue ''gvcols''),
     ([''--figonly''], StoreTrue ''figonly''),
     ([''--codeonly''], StoreTrue ''codeonly''),
     ([''--styleonly''], StoreTrue ''styleonly''),
     ([''--debug''], StoreTrue ''debug''),
     ([''--preproc''], StoreTrue ''texpreproc''),
     ([''--alignstr''], Store ''alignstr'' None),
     ([''--valignmode''], Store ''valignmode'' (Some [''center'', ''dot''])),
     ([''--nominsize''], StoreTrue ''nominsize''),
     ([''--usepdflatex''], StoreTrue ''usepdflatex''),
     ([''--tikzedgelabels''], StoreTrue ''tikzedgelabels''),
     ([''--nodeoptions''], Store ''nodeoptions'' None),
     ([''--edgeoptions''], Store ''edgeoptions'' None),
     ([''--runtests''], StoreTrue ''runtests''),
     ([''--prog''], Store ''prog'' (Some [''dot'', ''neato'', ''circo'', ''fdp'', ''twopi''])),
     ([''--progoptions''], Store ''progoptions'' None),
     ([''--autosize''], StoreTrue ''autosize''),
     ([''--cache''], StoreTrue ''cache''),
     ([''--pgf118''], StoreTrue ''pgf118''),
     ([''--pgf210''], StoreTrue ''pgf210'')]"

text \<open>
  The \<^verbatim>\<open>default\<close> of every \<^verbatim>\<open>dest\<close>, in the order of the \<^verbatim>\<open>add_argument\<close> calls
  (\<^verbatim>\<open>store_true\<close> defaults to False, a storing action to None unless the call says
  otherwise). The last entry is the positional \<^verbatim>\<open>inputfile\<close>. \<open>denc\<close> is
  \<^verbatim>\<open>DEFAULT_TEXTENCODING\<close> of \<^verbatim>\<open>base\<close>.
\<close>

definition defaults :: "string \<Rightarrow> (string \<times> pyval) list" where
  "defaults denc =
    [(''format'', PNone), (''texmode'', PStr ''verbatim''), (''duplicate'', PBool False),
     (''straightedges'', PBool False), (''templatefile'', PNone), (''outputfile'', PNone),
     (''force'', PBool False), (''encoding'', PStr denc), (''printversion'', PBool False),
     (''switchdraworder'', PBool False), (''crop'', PBool False), (''margin'', PStr ''0pt''),
     (''docpreamble'', PNone), (''figpreamble'', PNone), (''figpostamble'', PNone),
     (''graphstyle'', PNone), (''gvcols'', PBool False), (''figonly'', PBool False),
     (''codeonly'', PBool False), (''styleonly'', PBool False), (''debug'', PBool False),
     (''texpreproc'', PBool False), (''alignstr'', PNone), (''valignmode'', PStr ''center''),
     (''nominsize'', PBool False), (''usepdflatex'', PBool False),
     (''tikzedgelabels'', PBool False), (''nodeoptions'', PNone), (''edgeoptions'', PNone),
     (''runtests'', PBool False), (''prog'', PStr ''dot''), (''progoptions'', PStr []),
     (''autosize'', PBool False), (''cache'', PBool False), (''pgf118'', PBool False),
     (''pgf210'', PBool False), (''inputfile'', PNone)]"

text \<open>
  \<^verbatim>\<open>parse_known_args\<close>: "add any action defaults that aren't present". An attribute the
  namespace already has is kept.
\<close>

definition add_defaults :: "string \<Rightarrow> namespace \<Rightarrow> namespace" where
  "add_defaults denc ns = map_of (defaults denc) ++ ns"

text \<open>\<^verbatim>\<open>parser._option_string_actions\<close>: every option string with its action.\<close>

definition option_string_actions :: "(string \<times> action) list" where
  "option_string_actions = concat (map (\<lambda>(strs, a). map (\<lambda>s. (s, a)) strs) optionals)"

definition lookup_option :: "string \<Rightarrow> action option" where
  "lookup_option s = map_of option_string_actions s"

text \<open>
  How \<^verbatim>\<open>_parse_known_args\<close> classifies an argument string: \<open>ArgA\<close> is the pattern letter
  'A' (an argument), \<open>ArgDD\<close> is '-' (the string \<^verbatim>\<open>--\<close>), and \<open>ArgO\<close> is 'O' with the
  option tuple of \<^verbatim>\<open>_parse_optional\<close>: the action (None when no option of the parser
  matches), the option string, whether the separator is \<^verbatim>\<open>=\<close>, and the explicit argument.
\<close>

datatype argclass =
    ArgA
  | ArgDD
  | ArgO "action option" string bool "string option"

text \<open>\<^verbatim>\<open>s.partition('=')\<close>: the text before the first \<^verbatim>\<open>=\<close>, whether there is one, the text after.\<close>

definition partition_eq :: "string \<Rightarrow> string \<times> bool \<times> string" where
  "partition_eq s =
     (takeWhile (\<lambda>c. c \<noteq> CHR ''='') s, CHR ''='' \<in> set s,
      drop 1 (dropWhile (\<lambda>c. c \<noteq> CHR ''='') s))"

definition startswith :: "string \<Rightarrow> string \<Rightarrow> bool" where
  "startswith s p = (take (length p) s = p)"

text \<open>
  \<^verbatim>\<open>_get_option_tuples\<close>, called on a string of at least two characters that starts with
  \<^verbatim>\<open>-\<close>: abbreviations of long options (\<^verbatim>\<open>allow_abbrev\<close> is on), and a short option with
  its argument attached.
\<close>

definition get_option_tuples :: "string \<Rightarrow> (action \<times> string \<times> bool \<times> string option) list" where
  "get_option_tuples option_string =
     (if take 2 option_string = ''--'' then
        (case partition_eq option_string of (option_prefix, sep, explicit_arg) \<Rightarrow>
           concat (map (\<lambda>(s, a).
               if startswith s option_prefix
               then [(a, s, sep, if sep then Some explicit_arg else None)] else [])
             option_string_actions))
      else
        concat (map (\<lambda>(s, a).
            if s = take 2 option_string then [(a, s, False, Some (drop 2 option_string))]
            else if startswith s option_string then [(a, s, False, None)]
            else [])
          option_string_actions))"

text \<open>
  \<^verbatim>\<open>_negative_number_matcher\<close>, the pattern \<^verbatim>\<open>^-\d+$|^-\d*\.\d+$\<close>; \<^verbatim>\<open>$\<close> also matches just
  before a line feed that ends the string.
\<close>

definition is_digit :: "char \<Rightarrow> bool" where
  "is_digit c = (48 \<le> (of_char c :: nat) \<and> (of_char c :: nat) \<le> 57)"

definition is_negative_number :: "string \<Rightarrow> bool" where
  "is_negative_number s =
     (case s of
        [] \<Rightarrow> False
      | c # cs \<Rightarrow>
          c = CHR ''-'' \<and>
          (let body = (if cs \<noteq> [] \<and> last cs = LF then butlast cs else cs);
               int_part = takeWhile is_digit body;
               rest = dropWhile is_digit body
           in (int_part \<noteq> [] \<and> rest = []) \<or>
              (case rest of
                 [] \<Rightarrow> False
               | d # frac \<Rightarrow> d = CHR ''.'' \<and> frac \<noteq> [] \<and> list_all is_digit frac)))"

text \<open>
  \<^verbatim>\<open>_parse_optional\<close>. \<^verbatim>\<open>parser.error\<close> prints the usage and exits with status 2; no
  option string of this parser looks like a negative number, so
  \<^verbatim>\<open>_has_negative_number_optionals\<close> is empty.
\<close>

definition parse_optional :: "string \<Rightarrow> exn + argclass" where
  "parse_optional arg_string =
     (if arg_string = [] then Inr ArgA
      else if hd arg_string \<noteq> CHR ''-'' then Inr ArgA
      else case lookup_option arg_string of
        Some a \<Rightarrow> Inr (ArgO (Some a) arg_string False None)
      | None \<Rightarrow>
          if length arg_string = 1 then Inr ArgA
          else
            (case partition_eq arg_string of (option_string, sep, explicit_arg) \<Rightarrow>
              (case (if sep then lookup_option option_string else None) of
                 Some a \<Rightarrow> Inr (ArgO (Some a) option_string True (Some explicit_arg))
               | None \<Rightarrow>
                  (case get_option_tuples arg_string of
                     [] \<Rightarrow>
                       if is_negative_number arg_string then Inr ArgA
                       else if CHR '' '' \<in> set arg_string then Inr ArgA
                       else Inr (ArgO None arg_string False None)
                   | [(a, s, sp, ex)] \<Rightarrow> Inr (ArgO (Some a) s sp ex)
                   | _ \<Rightarrow> Inl (SystemExit 2)))))"

text \<open>
  The first loop of \<^verbatim>\<open>_parse_known_args\<close>: every string after the first \<^verbatim>\<open>--\<close> is an
  argument.
\<close>

fun classify_args :: "string list \<Rightarrow> exn + argclass list" where
  "classify_args [] = Inr []"
| "classify_args (a # as) =
     (if a = ''--'' then Inr (ArgDD # map (\<lambda>_. ArgA) as)
      else case parse_optional a of
        Inl e \<Rightarrow> Inl e
      | Inr c \<Rightarrow> (case classify_args as of Inl e \<Rightarrow> Inl e | Inr cs \<Rightarrow> Inr (c # cs)))"

text \<open>
  \<^verbatim>\<open>take_action\<close> for an optional: \<^verbatim>\<open>_get_values\<close>, \<^verbatim>\<open>_check_value\<close> and the action's
  call. \<^verbatim>\<open>_HelpAction\<close> prints the help and calls \<^verbatim>\<open>parser.exit()\<close> (status 0);
  \<^verbatim>\<open>_StoreTrueAction\<close> stores True; \<^verbatim>\<open>_StoreAction\<close> stores its one argument after the
  check against \<^verbatim>\<open>choices\<close> (an \<^verbatim>\<open>ArgumentError\<close> becomes \<^verbatim>\<open>parser.error\<close>, status 2).
  A storing action always gets exactly one argument string from \<open>consume_chain\<close>
  below; \<^verbatim>\<open>_get_values\<close> would store the list of strings otherwise, which the values of
  this model do not cover.
\<close>

fun take_action :: "action \<Rightarrow> string list \<Rightarrow> namespace \<Rightarrow> exn + namespace" where
  "take_action Help args ns = Inl (SystemExit 0)"
| "take_action (StoreTrue dest) args ns = Inr (ns(dest \<mapsto> PBool True))"
| "take_action (Store dest choices) [v] ns =
     (case choices of
        None \<Rightarrow> Inr (ns(dest \<mapsto> PStr v))
      | Some cs \<Rightarrow> if v \<in> set cs then Inr (ns(dest \<mapsto> PStr v)) else Inl (SystemExit 2))"
| "take_action (Store dest choices) args ns = Inl (OtherException ''list value'')"

fun take_actions :: "(action \<times> string list) list \<Rightarrow> namespace \<Rightarrow> exn + namespace" where
  "take_actions [] ns = Inr ns"
| "take_actions ((a, args) # ts) ns =
     (case take_action a args ns of Inl e \<Rightarrow> Inl e | Inr ns' \<Rightarrow> take_actions ts ns')"

text \<open>\<^verbatim>\<open>match_argument(action, ...)\<close> is 0 for \<^verbatim>\<open>nargs=0\<close> actions, else one 'A'.\<close>

fun nargs0 :: "action \<Rightarrow> bool" where
  "nargs0 Help = True"
| "nargs0 (StoreTrue dest) = True"
| "nargs0 (Store dest choices) = False"

text \<open>\<^verbatim>\<open>option_string[1] not in chars\<close>, for an option string of at least two characters.\<close>

definition single_dash :: "string \<Rightarrow> bool" where
  "single_dash option_string = (take 1 (drop 1 option_string) \<noteq> ''-'')"

text \<open>
  The \<^verbatim>\<open>while True\<close> loop of \<^verbatim>\<open>consume_optional\<close> for a known action. \<open>post\<close> holds the
  argument strings after the option with their classes. The result is the list
  \<^verbatim>\<open>action_tuples\<close>, the strings added to \<^verbatim>\<open>extras\<close>, and the strings left from index
  \<^verbatim>\<open>stop\<close> on.
\<close>

function consume_chain ::
  "action \<Rightarrow> string \<Rightarrow> bool \<Rightarrow> string option \<Rightarrow> (string \<times> argclass) list \<Rightarrow>
   (action \<times> string list) list \<Rightarrow>
   exn + ((action \<times> string list) list \<times> string list \<times> (string \<times> argclass) list)" where
  "consume_chain a option_string sep None post tuples =
     (if nargs0 a then Inr (tuples @ [(a, [])], [], post)
      else (case post of
              (v, ArgA) # post' \<Rightarrow> Inr (tuples @ [(a, [v])], [], post')
            | _ \<Rightarrow> Inl (SystemExit 2)))"
| "consume_chain a option_string sep (Some explicit_arg) post tuples =
     (if nargs0 a \<and> single_dash option_string \<and> explicit_arg \<noteq> [] then
        (if sep \<or> hd explicit_arg = CHR ''-'' then Inl (SystemExit 2)
         else
           (case lookup_option [CHR ''-'', hd explicit_arg] of
              Some a' \<Rightarrow>
                (if tl explicit_arg = [] then
                   consume_chain a' [CHR ''-'', hd explicit_arg] False None post
                     (tuples @ [(a, [])])
                 else if hd (tl explicit_arg) = CHR ''='' then
                   consume_chain a' [CHR ''-'', hd explicit_arg] True
                     (Some (tl (tl explicit_arg))) post (tuples @ [(a, [])])
                 else
                   consume_chain a' [CHR ''-'', hd explicit_arg] False
                     (Some (tl explicit_arg)) post (tuples @ [(a, [])]))
            | None \<Rightarrow> Inr (tuples @ [(a, [])], [CHR ''-'' # explicit_arg], post)))
      else if \<not> nargs0 a then Inr (tuples @ [(a, [explicit_arg])], [], post)
      else Inl (SystemExit 2))"
  by pat_completeness auto
termination
  by (relation "measure (\<lambda>(a, os, sep, ex, post, tuples).
        case ex of None \<Rightarrow> 0 | Some e \<Rightarrow> Suc (length e))")
     (auto simp: neq_Nil_conv)

text \<open>
  \<^verbatim>\<open>consume_optional\<close> at an argument with its class: an argument classified 'O' with
  no action goes to \<^verbatim>\<open>extras\<close>; otherwise the actions of the chain are taken in order.
  At an argument that is not classified 'O' the lookup
  \<^verbatim>\<open>option_string_indices[start_index]\<close> raises KeyError.
\<close>

fun consume_optional ::
  "string \<times> argclass \<Rightarrow> (string \<times> argclass) list \<Rightarrow> namespace \<Rightarrow> string list \<Rightarrow>
   exn + (namespace \<times> string list \<times> (string \<times> argclass) list)" where
  "consume_optional (arg, ArgO None option_string sep explicit_arg) post ns extras =
     Inr (ns, extras @ [arg], post)"
| "consume_optional (arg, ArgO (Some a) option_string sep explicit_arg) post ns extras =
     (case consume_chain a option_string sep explicit_arg post [] of
        Inl e \<Rightarrow> Inl e
      | Inr (tuples, ex, post') \<Rightarrow>
          (case take_actions tuples ns of
             Inl e \<Rightarrow> Inl e
           | Inr ns' \<Rightarrow> Inr (ns', extras @ ex, post')))"
| "consume_optional (arg, c) post ns extras = Inl (OtherException ''KeyError'')"

text \<open>
  The positional \<^verbatim>\<open>inputfile\<close> has \<^verbatim>\<open>nargs='?'\<close>, pattern \<^verbatim>\<open>(-*A?-*)\<close>:
  \<open>match_positional\<close> is the number of pattern letters it takes from the start.
\<close>

definition is_DD :: "argclass \<Rightarrow> bool" where
  "is_DD c = (c = ArgDD)"

definition match_positional :: "argclass list \<Rightarrow> nat" where
  "match_positional pattern =
     (let n = length (takeWhile is_DD pattern) in
      case dropWhile is_DD pattern of
        ArgA # rest \<Rightarrow> n + 1 + length (takeWhile is_DD rest)
      | _ \<Rightarrow> n)"

text \<open>
  \<^verbatim>\<open>take_action\<close> for the positional: \<^verbatim>\<open>_get_values\<close> removes the first \<^verbatim>\<open>--\<close>; with no
  string left the value is the default None, which the action stores like any value.
\<close>

definition take_positional :: "string list \<Rightarrow> namespace \<Rightarrow> exn + namespace" where
  "take_positional args ns =
     (case remove1 ''--'' args of
        [] \<Rightarrow> Inr (ns(''inputfile'' \<mapsto> PNone))
      | [v] \<Rightarrow> Inr (ns(''inputfile'' \<mapsto> PStr v))
      | _ \<Rightarrow> Inl (OtherException ''list value''))"

declare consume_chain.simps [simp del]

lemma consume_chain_length:
  "consume_chain a os sep ex post tuples = Inr (ts, es, post') \<Longrightarrow> length post' \<le> length post"
proof (induction a os sep ex post tuples rule: consume_chain.induct)
  case (1 a option_string sep post tuples)
  show ?case
  proof (cases "nargs0 a")
    case True
    with 1 show ?thesis by (simp add: consume_chain.simps)
  next
    case False
    with 1 show ?thesis
      by (cases post) (auto simp: consume_chain.simps split: argclass.splits)
  qed
next
  case (2 a option_string sep explicit_arg post tuples)
  show ?case
  proof (cases "nargs0 a \<and> single_dash option_string \<and> explicit_arg \<noteq> []")
    case False
    with 2(4) show ?thesis by (simp add: consume_chain.simps split: if_splits)
  next
    case True
    note T = True
    show ?thesis
    proof (cases "sep \<or> hd explicit_arg = CHR ''-''")
      case True
      with T 2(4) show ?thesis by (simp add: consume_chain.simps)
    next
      case False
      note F = False
      show ?thesis
      proof (cases "lookup_option [CHR ''-'', hd explicit_arg]")
        case None
        with T F 2(4) show ?thesis by (simp add: consume_chain.simps)
      next
        case (Some a')
        show ?thesis
        proof (cases "tl explicit_arg = []")
          case True
          with T F Some 2(4) have "consume_chain a' [CHR ''-'', hd explicit_arg] False None post
                     (tuples @ [(a, [])]) = Inr (ts, es, post')"
            by (simp add: consume_chain.simps)
          with 2(1) T F Some True show ?thesis by blast
        next
          case False
          note NE = False
          show ?thesis
          proof (cases "hd (tl explicit_arg) = CHR ''=''")
            case True
            with T F Some NE 2(4) have "consume_chain a' [CHR ''-'', hd explicit_arg] True
                     (Some (tl (tl explicit_arg))) post (tuples @ [(a, [])]) = Inr (ts, es, post')"
              by (simp add: consume_chain.simps)
            with 2(2) T F Some NE True show ?thesis by blast
          next
            case False
            with T F Some NE 2(4) have "consume_chain a' [CHR ''-'', hd explicit_arg] False
                     (Some (tl explicit_arg)) post (tuples @ [(a, [])]) = Inr (ts, es, post')"
              by (simp add: consume_chain.simps)
            with 2(3) T F Some NE False show ?thesis by blast
          qed
        qed
      qed
    qed
  qed
qed

definition is_O :: "string \<times> argclass \<Rightarrow> bool" where
  "is_O item = (case snd item of ArgO act s sep ex \<Rightarrow> True | _ \<Rightarrow> False)"

lemma consume_optional_length:
  "consume_optional item post ns extras = Inr (ns', extras', post') \<Longrightarrow>
   length post' \<le> length post"
proof (induction item post ns extras rule: consume_optional.induct)
  case (1 arg option_string sep explicit_arg post ns extras)
  then show ?case by simp
next
  case (2 arg a option_string sep explicit_arg post ns extras)
  then obtain tuples ex where
    "consume_chain a option_string sep explicit_arg post [] = Inr (tuples, ex, post')"
    by (auto split: sum.splits prod.splits)
  then show ?case by (rule consume_chain_length)
qed simp_all

text \<open>
  The \<^verbatim>\<open>while start_index <= max_option_string_index\<close> loop of \<^verbatim>\<open>_parse_known_args\<close> and
  the two statements after it. \<open>items\<close> are the argument strings from \<^verbatim>\<open>start_index\<close> on
  with their classes; \<open>positional\<close> says whether \<^verbatim>\<open>inputfile\<close> is still in the list
  \<^verbatim>\<open>positionals\<close>. With no option left, the positional takes what its pattern matches
  and the rest goes to \<^verbatim>\<open>extras\<close>. At an option, \<^verbatim>\<open>consume_optional\<close> runs. At an argument
  before an option, \<^verbatim>\<open>consume_positionals\<close> runs (it does nothing once the positional
  is used up), and what it leaves before the next option goes to \<^verbatim>\<open>extras\<close>. The result
  is the namespace and \<^verbatim>\<open>extras\<close>.
\<close>

function parse_loop ::
  "(string \<times> argclass) list \<Rightarrow> bool \<Rightarrow> namespace \<Rightarrow> string list \<Rightarrow>
   exn + (namespace \<times> string list)" where
  "parse_loop items positional ns extras =
     (if \<not> list_ex is_O items then
        (if positional then
           (let n = match_positional (map snd items) in
            case take_positional (map fst (take n items)) ns of
              Inl e \<Rightarrow> Inl e
            | Inr ns' \<Rightarrow> Inr (ns', extras @ map fst (drop n items)))
         else Inr (ns, extras @ map fst items))
      else
        (case items of
           [] \<Rightarrow> Inr (ns, extras)
         | item # post \<Rightarrow>
             if is_O item then
               (case consume_optional item post ns extras of
                  Inl e \<Rightarrow> Inl e
                | Inr (ns', extras', post') \<Rightarrow> parse_loop post' positional ns' extras')
             else if positional then
               (let n = match_positional (map snd items) in
                case take_positional (map fst (take n items)) ns of
                  Inl e \<Rightarrow> Inl e
                | Inr ns' \<Rightarrow>
                    if n > 0 then parse_loop (drop n items) False ns' extras
                    else parse_loop (dropWhile (\<lambda>i. \<not> is_O i) post) False ns'
                           (extras @ map fst (item # takeWhile (\<lambda>i. \<not> is_O i) post)))
             else parse_loop (dropWhile (\<lambda>i. \<not> is_O i) post) False ns
                    (extras @ map fst (item # takeWhile (\<lambda>i. \<not> is_O i) post))))"
  by pat_completeness auto
termination
proof (relation "measure (\<lambda>(items, positional, ns, extras). length items)", goal_cases)
  case 1
  show ?case by (rule wf_measure)
next
  case (2 items positional ns extras item post r ns' y extras' post')
  have "consume_optional item post ns extras = Inr (ns', extras', post')"
    using 2(4) 2(5) [symmetric] 2(6) [symmetric] by (simp only:)
  then have "length post' \<le> length post" by (rule consume_optional_length)
  then show ?case using 2(2) by simp
next
  case (3 items positional ns extras item post n)
  then show ?case by simp
next
  case (4 items positional ns extras item post n)
  have "length (dropWhile (\<lambda>i. \<not> is_O i) post) \<le> length post" by (rule length_dropWhile_le)
  then show ?case using 4(2) by simp
next
  case (5 items positional ns extras item post)
  have "length (dropWhile (\<lambda>i. \<not> is_O i) post) \<le> length post" by (rule length_dropWhile_le)
  then show ?case using 5(2) by simp
qed

text \<open>
  \<^verbatim>\<open>parser.parse_args(args, namespace)\<close>: defaults for the attributes the namespace lacks,
  classification, the loop, and \<^verbatim>\<open>parser.error\<close> (status 2) when \<^verbatim>\<open>extras\<close> is not
  empty. \<^verbatim>\<open>Namespace()\<close> is the empty map.
\<close>

definition parse_args :: "string \<Rightarrow> string list \<Rightarrow> namespace \<Rightarrow> exn + namespace" where
  "parse_args denc args namespace =
     (case classify_args args of
        Inl e \<Rightarrow> Inl e
      | Inr classes \<Rightarrow>
          (case parse_loop (zip args classes) True (add_defaults denc namespace) [] of
             Inl e \<Rightarrow> Inl e
           | Inr (ns, extras) \<Rightarrow> if extras \<noteq> [] then Inl (SystemExit 2) else Inr ns))"

declare parse_loop.simps [simp del]

text \<open>
  What parsing the argument strings assigns: \<^verbatim>\<open>parse_args\<close> on a namespace without the step
  that adds the defaults.
\<close>

definition option_settings :: "string list \<Rightarrow> exn + namespace" where
  "option_settings args =
     (case classify_args args of
        Inl e \<Rightarrow> Inl e
      | Inr classes \<Rightarrow>
          (case parse_loop (zip args classes) True Map.empty [] of
             Inl e \<Rightarrow> Inl e
           | Inr (m, extras) \<Rightarrow> if extras \<noteq> [] then Inl (SystemExit 2) else Inr m))"

text \<open>
  An invariant of the parser for the attribute \<^verbatim>\<open>format\<close>: the only action that stores it is
  the one of \<^verbatim>\<open>-f\<close>, whose \<^verbatim>\<open>choices\<close> are five non-empty strings (\<open>format_ok\<close>, and
  \<open>class_ok\<close> for a classified argument), so a value the parser assigns to \<^verbatim>\<open>format\<close> is
  truthy (\<open>format_truthy\<close>).
\<close>

definition format_ok :: "action \<Rightarrow> bool" where
  "format_ok a =
     (case a of
        Help \<Rightarrow> True
      | StoreTrue dest \<Rightarrow> dest \<noteq> ''format''
      | Store dest choices \<Rightarrow>
          dest \<noteq> ''format'' \<or> choices = Some [''pstricks'', ''pgf'', ''pst'', ''tikz'', ''psn''])"

definition class_ok :: "argclass \<Rightarrow> bool" where
  "class_ok c = (case c of ArgO (Some a) s sep ex \<Rightarrow> format_ok a | _ \<Rightarrow> True)"

definition format_truthy :: "namespace \<Rightarrow> bool" where
  "format_truthy m = (case m ''format'' of None \<Rightarrow> True | Some v \<Rightarrow> truthy v)"

subsection \<open>The environment of main\<close>

text \<open>
  What \<^verbatim>\<open>dot2tex.py\<close> imports or reaches outside itself:
  \<^item> \<open>DEFAULT_TEXTENCODING\<close> and \<open>DEFAULT_OUTPUT_FORMAT\<close>, constants of \<^verbatim>\<open>base\<close>;
  \<^item> \<open>read_lines\<close>: \<^verbatim>\<open>open(filename, 'r')\<close> followed by \<^verbatim>\<open>readlines()\<close>, which may raise;
  \<^item> \<open>write_output\<close>: \<^verbatim>\<open>open(name, 'w')\<close> followed by \<^verbatim>\<open>write(s)\<close>, which may raise;
  \<^item> the converter classes of \<^verbatim>\<open>pgfformat\<close> and \<^verbatim>\<open>pstricksformat\<close>: \<open>new_converter\<close> is the
    constructor call \<^verbatim>\<open>Conv(options.__dict__)\<close>, \<open>convert\<close> the method \<^verbatim>\<open>conv.convert\<close> and
    \<open>set_dopreproc_False\<close> the assignment \<^verbatim>\<open>conv.dopreproc = False\<close>. A converter keeps
    the dictionary it was given, so \<open>convert\<close> takes the dictionary and returns it as
    the call left it, with the output or the exception and the converter's new state.
\<close>

record 'c environment =
  DEFAULT_TEXTENCODING :: string
  DEFAULT_OUTPUT_FORMAT :: string
  read_lines :: "string \<Rightarrow> exn + string list"
  write_output :: "pyval \<Rightarrow> string \<Rightarrow> exn option"
  new_converter :: "converter \<Rightarrow> namespace \<Rightarrow> exn + 'c"
  convert :: "'c \<Rightarrow> namespace \<Rightarrow> string \<Rightarrow> (exn + string) \<times> 'c \<times> namespace"
  set_dopreproc_False :: "'c \<Rightarrow> 'c"

text \<open>\<^verbatim>\<open>load_dot_file\<close> (lines 253-257).\<close>

definition load_dot_file :: "'c environment \<Rightarrow> string \<Rightarrow> exn + string list" where
  "load_dot_file env filename = read_lines env filename"

subsection \<open>main with \<^verbatim>\<open>run_as_module=True\<close>\<close>

text \<open>
  Lines 407-431: the attributes found in the graph source and the options in effect.
  \<^verbatim>\<open>x or y or z\<close> is the first truthy operand, or \<open>z\<close>.
\<close>

definition resolve_options :: "'c environment \<Rightarrow> namespace \<Rightarrow> string \<Rightarrow> exn + namespace" where
  "resolve_options env options dotdata =
     (let fmtattr = first_fmtattr dotdata;
          extraoptions = first_d2toptions dotdata;
          gfmt = (case fmtattr of Some f \<Rightarrow> PStr f | None \<Rightarrow> PNone)
      in case (case extraoptions of
                 None \<Rightarrow> Inr options
               | Some s \<Rightarrow> parse_args (DEFAULT_TEXTENCODING env) (split_ws s) options) of
           Inl e \<Rightarrow> Inl e
         | Inr options' \<Rightarrow>
             (case getattr options' ''format'' of
                Inl e \<Rightarrow> Inl e
              | Inr fmt \<Rightarrow>
                  let output_format =
                        (if truthy fmt then fmt
                         else if truthy gfmt then gfmt
                         else PStr (DEFAULT_OUTPUT_FORMAT env))
                  in Inr (options'(''format'' \<mapsto> output_format))))"

text \<open>
  Lines 446-479 with \<^verbatim>\<open>run_as_module\<close> true: each \<^verbatim>\<open>except\<close> clause re-raises, so an
  exception raised in the \<^verbatim>\<open>try\<close> block leaves main as it is; otherwise main returns \<open>s\<close>.
\<close>

definition run_conversion ::
  "'c environment \<Rightarrow> 'c \<Rightarrow> namespace \<Rightarrow> string \<Rightarrow> exn + string" where
  "run_conversion env conv options dotdata =
     (case convert env conv options dotdata of
        (Inl e, conv1, options1) \<Rightarrow> Inl e
      | (Inr s, conv1, options1) \<Rightarrow>
          (case getattr options1 ''autosize'' of
             Inl e \<Rightarrow> Inl e
           | Inr autosize \<Rightarrow>
               (case (if truthy autosize
                      then convert env (set_dopreproc_False env conv1) options1 s
                      else (Inr s, conv1, options1)) of
                  (Inl e, conv2, options2) \<Rightarrow> Inl e
                | (Inr s2, conv2, options2) \<Rightarrow>
                    (case getattr options2 ''outputfile'' of
                       Inl e \<Rightarrow> Inl e
                     | Inr outputfile \<Rightarrow>
                         if truthy outputfile then
                           (case write_output env outputfile s2 of
                              Some e \<Rightarrow> Inl e
                            | None \<Rightarrow> Inr s2)
                         else Inr s2))))"

text \<open>
  Lines 343-360: the search for an \<^verbatim>\<open>\input\<close> line in the joined data; with a match the
  data is replaced by the lines of the named file, and a failure to load is re-raised.
\<close>

definition follow_input ::
  "'c environment \<Rightarrow> string list \<Rightarrow> exn + string list" where
  "follow_input env dotdata =
     (case search_input (concat dotdata) of
        None \<Rightarrow> Inr dotdata
      | Some filename \<Rightarrow> load_dot_file env filename)"

text \<open>
  Lines 277-360 with \<^verbatim>\<open>run_as_module\<close> true: \<^verbatim>\<open>options.runtests\<close> and \<^verbatim>\<open>options.debug\<close>
  are read first (with \<^verbatim>\<open>runtests\<close> set main runs the doctests and calls
  \<^verbatim>\<open>sys.exit(0)\<close>), the data is split into lines, and an \<^verbatim>\<open>\input\<close> line is followed.
\<close>

definition read_input ::
  "'c environment \<Rightarrow> string \<Rightarrow> namespace \<Rightarrow> exn + string list" where
  "read_input env dotdata options =
     (case getattr options ''runtests'' of
        Inl e \<Rightarrow> Inl e
      | Inr runtests \<Rightarrow>
          if truthy runtests then Inl (SystemExit 0)
          else
            (case getattr options ''debug'' of
               Inl e \<Rightarrow> Inl e
             | Inr debug \<Rightarrow> follow_input env (splitlines dotdata)))"

text \<open>
  Lines 362-445 with \<^verbatim>\<open>run_as_module\<close> true, from the list of lines \<open>dotdata\<close>: the blank
  lines are dropped, the options resolved, the converter chosen and constructed. The
  caching block is skipped, but its condition reads \<^verbatim>\<open>options.cache\<close> first. The result
  is the converter, the options and the data that line 447 calls \<^verbatim>\<open>conv.convert\<close> with.
\<close>

definition prepare_conversion ::
  "'c environment \<Rightarrow> namespace \<Rightarrow> string list \<Rightarrow> exn + ('c \<times> namespace \<times> string)" where
  "prepare_conversion env options dotdata =
     (let dotdata' = strip_blank_lines dotdata in
      case getattr options ''cache'' of
        Inl e \<Rightarrow> Inl e
      | Inr cache \<Rightarrow>
          (case resolve_options env options dotdata' of
             Inl e \<Rightarrow> Inl e
           | Inr options' \<Rightarrow>
               (case getattr options' ''format'' of
                  Inl e \<Rightarrow> Inl e
                | Inr output_format \<Rightarrow>
                    (case select_converter output_format of
                       Inl e \<Rightarrow> Inl e
                     | Inr cls \<Rightarrow>
                         (case new_converter env cls options' of
                            Inl e \<Rightarrow> Inl e
                          | Inr conv \<Rightarrow> Inr (conv, options', dotdata'))))))"

text \<open>Lines 362-479 with \<^verbatim>\<open>run_as_module\<close> true, from the list of lines \<open>dotdata\<close>.\<close>

definition convert_lines ::
  "'c environment \<Rightarrow> namespace \<Rightarrow> string list \<Rightarrow> exn + string" where
  "convert_lines env options dotdata =
     (case prepare_conversion env options dotdata of
        Inl e \<Rightarrow> Inl e
      | Inr (conv, options', dotdata') \<Rightarrow> run_conversion env conv options' dotdata')"

text \<open>\<^verbatim>\<open>main(True, dotdata, options)\<close> (lines 260-479).\<close>

definition main_module ::
  "'c environment \<Rightarrow> string \<Rightarrow> namespace \<Rightarrow> exn + string" where
  "main_module env dotdata options =
     (case read_input env dotdata options of
        Inl e \<Rightarrow> Inl e
      | Inr dotdata' \<Rightarrow> convert_lines env options dotdata')"

subsection \<open>\<^verbatim>\<open>convert_graph\<close>\<close>

text \<open>
  Lines 489-496: the default options, the renaming of the keyword \<^verbatim>\<open>preproc\<close> when its
  value is truthy, and \<^verbatim>\<open>options.__dict__.update(kwargs)\<close>. \<open>convert_graph_options\<close> is
  the namespace that \<^verbatim>\<open>convert_graph\<close> hands to main; \<open>denc\<close> is \<^verbatim>\<open>DEFAULT_TEXTENCODING\<close>.
\<close>

definition rename_preproc :: "namespace \<Rightarrow> namespace" where
  "rename_preproc kwargs =
     (if truthy (case kwargs ''preproc'' of None \<Rightarrow> PNone | Some v \<Rightarrow> v)
      then (kwargs(''texpreproc'' := kwargs ''preproc''))(''preproc'' := None)
      else kwargs)"

definition convert_graph_options :: "string \<Rightarrow> namespace \<Rightarrow> exn + namespace" where
  "convert_graph_options denc kwargs =
     (case parse_args denc [] Map.empty of
        Inl e \<Rightarrow> Inl e
      | Inr options \<Rightarrow> Inr (options ++ rename_preproc kwargs))"

text \<open>\<^verbatim>\<open>convert_graph(dotsource, **kwargs)\<close> (lines 482-498).\<close>

definition convert_graph :: "'c environment \<Rightarrow> string \<Rightarrow> namespace \<Rightarrow> exn + string" where
  "convert_graph env dotsource kwargs =
     (case convert_graph_options (DEFAULT_TEXTENCODING env) kwargs of
        Inl e \<Rightarrow> Inl e
      | Inr options \<Rightarrow> main_module env dotsource options)"

subsection \<open>Converters and the keyword \<^verbatim>\<open>preproc\<close>\<close>



subsection \<open>A sample environment\<close>

text \<open>
  An environment to run the model on concrete inputs: no file can be read, writing
  succeeds, and each converter returns the graph source it is given.
\<close>

definition sample_env :: "unit environment" where
  "sample_env =
     \<lparr>DEFAULT_TEXTENCODING = ''utf8'',
      DEFAULT_OUTPUT_FORMAT = ''pgf'',
      read_lines = (\<lambda>filename. Inl (OtherException ''FileNotFoundError'')),
      write_output = (\<lambda>name s. None),
      new_converter = (\<lambda>cls options. Inr ()),
      convert = (\<lambda>conv options dotdata. (Inr dotdata, conv, options)),
      set_dopreproc_False = (\<lambda>conv. conv)\<rparr>"


text \<open>The sample environment with a converter that fails to parse every source.\<close>

definition sample_env_parse_error :: "unit environment" where
  "sample_env_parse_error =
     sample_env\<lparr>convert :=
       (\<lambda>conv options dotdata. (Inl (ParseException ''Expected graph''), conv, options))\<rparr>"

text \<open>
  The sample environment with a converter that reads \<^verbatim>\<open>texpreproc\<close>: it marks its output
  when the option is set.
\<close>

definition sample_env_preproc :: "unit environment" where
  "sample_env_preproc =
     sample_env\<lparr>convert :=
       (\<lambda>conv options dotdata.
          (Inr ((if (case options ''texpreproc'' of Some v \<Rightarrow> truthy v | None \<Rightarrow> False)
                 then ''% preproc '' else []) @ dotdata), conv, options))\<rparr>"

subsection \<open>Sample graphs\<close>

text \<open>A graph with one \<^verbatim>\<open>d2toptions\<close> line, and one with two.\<close>

definition straight_graph :: string where
  "straight_graph =
     ''digraph G {'' @ [LF] @
     ''  d2toptions='' @ [DQUOTE] @ ''--straightedges'' @ [DQUOTE] @ '';'' @ [LF] @
     ''  a -> b;'' @ [LF] @
     ''}'' @ [LF]"

definition two_options_graph :: string where
  "two_options_graph =
     ''digraph G {'' @ [LF] @
     ''  d2toptions='' @ [DQUOTE] @ ''--figonly'' @ [DQUOTE] @ '';'' @ [LF] @
     ''  d2toptions='' @ [DQUOTE] @ ''--straightedges'' @ [DQUOTE] @ '';'' @ [LF] @
     ''  a -> b;'' @ [LF] @
     ''}'' @ [LF]"

text \<open>
  A graph whose \<^verbatim>\<open>d2toutputformat\<close> value is quoted, and one with both attributes.
\<close>

definition quoted_format_graph :: string where
  "quoted_format_graph =
     ''digraph G {d2toutputformat='' @ [DQUOTE] @ ''tikz'' @ [DQUOTE] @ ''; a -> b;}''"

definition format_options_graph :: string where
  "format_options_graph =
     ''digraph G {'' @ [LF] @
     ''  d2toutputformat=tikz;'' @ [LF] @
     ''  d2toptions='' @ [DQUOTE] @ ''--crop'' @ [DQUOTE] @ '';'' @ [LF] @
     ''  a -> b;'' @ [LF] @
     ''}'' @ [LF]"

section \<open>Properties\<close>

subsection \<open>The option parser on small argument lists\<close>

lemma lookup_format_short:
  "lookup_option ''-f'' =
     Some (Store ''format'' (Some [''pstricks'', ''pgf'', ''pst'', ''tikz'', ''psn'']))"
  by (simp add: lookup_option_def option_string_actions_def optionals_def)

lemma parse_optional_error: "parse_optional s = Inl e \<Longrightarrow> e = SystemExit 2"
  by (auto simp: parse_optional_def split: if_splits option.splits prod.splits list.splits)

lemma parse_optional_plain:
  "s \<noteq> [] \<Longrightarrow> hd s \<noteq> CHR ''-'' \<Longrightarrow> parse_optional s = Inr ArgA"
  by (simp add: parse_optional_def)

lemma parse_args_Nil:
  "parse_args denc [] ns = Inr ((add_defaults denc ns)(''inputfile'' \<mapsto> PNone))"
  by (simp add: parse_args_def parse_loop.simps match_positional_def take_positional_def)

lemma parse_format_value:
  "parse_args denc [''-f'', v] ns =
     (if v \<in> set [''pstricks'', ''pgf'', ''pst'', ''tikz'', ''psn'']
      then Inr ((add_defaults denc ns)(''format'' \<mapsto> PStr v, ''inputfile'' \<mapsto> PNone))
      else Inl (SystemExit 2))"
proof -
  have f: "parse_optional ''-f'' =
      Inr (ArgO (Some (Store ''format'' (Some [''pstricks'', ''pgf'', ''pst'', ''tikz'', ''psn''])))
             ''-f'' False None)"
    by (simp add: parse_optional_def lookup_format_short)
  show ?thesis
  proof (cases "v \<in> set [''pstricks'', ''pgf'', ''pst'', ''tikz'', ''psn'']")
    case True
    then have "parse_optional v = Inr ArgA" "v \<noteq> ''--''"
      by (auto intro: parse_optional_plain)
    with True show ?thesis
      by (simp add: parse_args_def f parse_loop.simps is_O_def consume_chain.simps
            match_positional_def take_positional_def)
  next
    case False
    show ?thesis
    proof (cases "v = ''--''")
      case True
      with False show ?thesis
        by (simp add: parse_args_def f parse_loop.simps is_O_def consume_chain.simps)
    next
      case nd: False
      show ?thesis
      proof (cases "parse_optional v")
        case (Inl e)
        with nd parse_optional_error [OF Inl] False show ?thesis
          by (simp add: parse_args_def f)
      next
        case (Inr c)
        with nd False show ?thesis
          by (cases c)
             (simp_all add: parse_args_def f parse_loop.simps is_O_def consume_chain.simps
                match_positional_def take_positional_def)
      qed
    qed
  qed
qed

subsection \<open>The parsed options are laid over the namespace\<close>

text \<open>
  The parser only adds attributes to the namespace it is given: parsing over a namespace
  gives that namespace with the settings of the arguments laid over it.
\<close>

lemma take_action_add:
  "take_action a args (ns ++ m) =
     (case take_action a args m of Inl e \<Rightarrow> Inl e | Inr m' \<Rightarrow> Inr (ns ++ m'))"
  by (induction a args m rule: take_action.induct) (auto split: option.splits)

lemma take_actions_add:
  "take_actions ts (ns ++ m) =
     (case take_actions ts m of Inl e \<Rightarrow> Inl e | Inr m' \<Rightarrow> Inr (ns ++ m'))"
proof (induction ts arbitrary: m)
  case Nil
  show ?case by simp
next
  case (Cons t ts)
  obtain a args where t: "t = (a, args)" by (cases t)
  show ?case
    using Cons.IH by (cases "take_action a args m") (simp_all add: t take_action_add)
qed

lemma consume_optional_add:
  "consume_optional item post (ns ++ m) extras =
     (case consume_optional item post m extras of
        Inl e \<Rightarrow> Inl e
      | Inr (m', ex, post') \<Rightarrow> Inr (ns ++ m', ex, post'))"
  by (induction item post m extras rule: consume_optional.induct)
     (auto simp: take_actions_add split: sum.splits)

lemma take_positional_add:
  "take_positional args (ns ++ m) =
     (case take_positional args m of Inl e \<Rightarrow> Inl e | Inr m' \<Rightarrow> Inr (ns ++ m'))"
  by (auto simp: take_positional_def split: list.splits)

lemma parse_loop_add:
  "parse_loop items pos (ns ++ m) extras =
     (case parse_loop items pos m extras of
        Inl e \<Rightarrow> Inl e
      | Inr (m', ex) \<Rightarrow> Inr (ns ++ m', ex))"
proof (induction items pos m extras rule: parse_loop.induct)
  case (1 items positional m extras)
  show ?case
  proof (cases "list_ex is_O items")
    case False
    then show ?thesis
      by (simp add: parse_loop.simps [of items] take_positional_add Let_def split: sum.splits)
  next
    case True
    then obtain item post where items: "items = item # post" by (cases items) auto
    show ?thesis
    proof (cases "is_O item")
      case o: True
      show ?thesis
      proof (cases "consume_optional item post m extras")
        case (Inl e)
        then show ?thesis
          using True items o
          by (simp add: parse_loop.simps [of "item # post"] consume_optional_add)
      next
        case (Inr r)
        obtain m' ex' post' where r: "r = (m', ex', post')" by (metis prod_cases3)
        have "parse_loop post' positional (ns ++ m') ex' =
           (case parse_loop post' positional m' ex' of
              Inl e \<Rightarrow> Inl e | Inr (m'', ex) \<Rightarrow> Inr (ns ++ m'', ex))"
          using "1.IH"(1) [OF _ items o Inr, of m' "(ex', post')" ex' post'] True r by simp
        then show ?thesis
          using True items o Inr r
          by (simp add: parse_loop.simps [of "item # post"] consume_optional_add)
      qed
    next
      case no: False
      show ?thesis
      proof (cases positional)
        case p: True
        define n where "n = match_positional (map snd items)"
        show ?thesis
        proof (cases "take_positional (map fst (take n items)) m")
          case (Inl e)
          then show ?thesis
            using True items no p n_def
            by (simp add: parse_loop.simps [of "item # post"] take_positional_add Let_def)
        next
          case (Inr m')
          show ?thesis
          proof (cases "n > 0")
            case gt: True
            have "parse_loop (drop n items) False (ns ++ m') extras =
               (case parse_loop (drop n items) False m' extras of
                  Inl e \<Rightarrow> Inl e | Inr (m'', ex) \<Rightarrow> Inr (ns ++ m'', ex))"
              using "1.IH"(2) [OF _ items no p n_def Inr gt] True by simp
            then show ?thesis
              using True items no p n_def Inr gt
              by (simp add: parse_loop.simps [of "item # post"] take_positional_add Let_def)
          next
            case ngt: False
            have "parse_loop (dropWhile (\<lambda>i. \<not> is_O i) post) False (ns ++ m')
                    (extras @ map fst (item # takeWhile (\<lambda>i. \<not> is_O i) post)) =
               (case parse_loop (dropWhile (\<lambda>i. \<not> is_O i) post) False m'
                    (extras @ map fst (item # takeWhile (\<lambda>i. \<not> is_O i) post)) of
                  Inl e \<Rightarrow> Inl e | Inr (m'', ex) \<Rightarrow> Inr (ns ++ m'', ex))"
              using "1.IH"(3) [OF _ items no p n_def Inr ngt] True by simp
            then show ?thesis
              using True items no p n_def Inr ngt
              by (simp add: parse_loop.simps [of "item # post"] take_positional_add Let_def)
          qed
        qed
      next
        case np: False
        have "parse_loop (dropWhile (\<lambda>i. \<not> is_O i) post) False (ns ++ m)
                (extras @ map fst (item # takeWhile (\<lambda>i. \<not> is_O i) post)) =
           (case parse_loop (dropWhile (\<lambda>i. \<not> is_O i) post) False m
                (extras @ map fst (item # takeWhile (\<lambda>i. \<not> is_O i) post)) of
              Inl e \<Rightarrow> Inl e | Inr (m'', ex) \<Rightarrow> Inr (ns ++ m'', ex))"
          using "1.IH"(4) [OF _ items no np] True by simp
        then show ?thesis
          using True items no np
          by (simp add: parse_loop.simps [of "item # post"])
      qed
    qed
  qed
qed

lemma parse_args_merge:
  "parse_args denc args ns =
     (case classify_args args of
        Inl e \<Rightarrow> Inl e
      | Inr classes \<Rightarrow>
          (case parse_loop (zip args classes) True Map.empty [] of
             Inl e \<Rightarrow> Inl e
           | Inr (m, extras) \<Rightarrow>
               if extras \<noteq> [] then Inl (SystemExit 2) else Inr (add_defaults denc ns ++ m)))"
  using parse_loop_add [of _ True "add_defaults denc ns" Map.empty "[]"]
  by (simp add: parse_args_def split: sum.splits)



subsection \<open>A dialect assigned by the parser is truthy\<close>

lemma table_ok: "list_all (\<lambda>(s, a). format_ok a) option_string_actions"
  by (simp add: option_string_actions_def optionals_def format_ok_def)

lemma table_member_ok: "(s, a) \<in> set option_string_actions \<Longrightarrow> format_ok a"
  using table_ok by (auto simp: list_all_iff)

lemma lookup_ok: "lookup_option s = Some a \<Longrightarrow> format_ok a"
  unfolding lookup_option_def by (rule table_member_ok [OF map_of_SomeD])

lemma tuples_ok: "(a, s, sep, ex) \<in> set (get_option_tuples arg) \<Longrightarrow> format_ok a"
  by (auto simp: get_option_tuples_def split: if_splits prod.splits dest: table_member_ok)

lemma parse_optional_ok: "parse_optional s = Inr c \<Longrightarrow> class_ok c"
proof -
  assume p: "parse_optional s = Inr c"
  show ?thesis
  proof (cases c)
    case (ArgO act os sep ex)
    show ?thesis
    proof (cases act)
      case None
      with ArgO show ?thesis by (simp add: class_ok_def)
    next
      case (Some a)
      have "format_ok a"
      proof (cases "lookup_option s")
        case l: (Some a')
        with p ArgO Some show ?thesis
          by (auto simp: parse_optional_def split: if_splits dest: lookup_ok)
      next
        case None
        obtain os' sep' ex' where pe: "partition_eq s = (os', sep', ex')" by (metis prod_cases3)
        show ?thesis
        proof (cases "if sep' then lookup_option os' else None")
          case l2: (Some a')
          with p ArgO Some None pe have "a' = a"
            by (auto simp: parse_optional_def split: if_splits)
          with l2 show ?thesis by (auto split: if_splits dest: lookup_ok)
        next
          case n2: None
          with p ArgO Some None pe obtain sp where "get_option_tuples s = [(a, os, sp, ex)]"
            by (auto simp: parse_optional_def split: if_splits list.splits)
          then have "(a, os, sp, ex) \<in> set (get_option_tuples s)" by simp
          then show ?thesis by (rule tuples_ok)
        qed
      qed
      with ArgO Some show ?thesis by (simp add: class_ok_def)
    qed
  qed (simp_all add: class_ok_def)
qed

lemma classify_ok: "classify_args args = Inr cs \<Longrightarrow> list_all class_ok cs"
proof (induction args arbitrary: cs)
  case Nil
  then show ?case by simp
next
  case (Cons a as)
  show ?case
  proof (cases "a = ''--''")
    case True
    with Cons.prems show ?thesis by (auto simp: class_ok_def list_all_iff)
  next
    case False
    with Cons.prems obtain c cs' where "parse_optional a = Inr c" "classify_args as = Inr cs'"
      "cs = c # cs'"
      by (auto split: sum.splits)
    with Cons.IH parse_optional_ok show ?thesis by simp
  qed
qed

lemma take_action_ok:
  assumes "format_ok a" "take_action a args m = Inr m'" "format_truthy m"
  shows "format_truthy m'"
proof (cases a)
  case Help
  with assms show ?thesis by simp
next
  case (StoreTrue dest)
  with assms show ?thesis by (auto simp: format_ok_def format_truthy_def)
next
  case (Store dest choices)
  show ?thesis
  proof (cases args)
    case Nil
    with assms Store show ?thesis by simp
  next
    case (Cons v vs)
    show ?thesis
    proof (cases vs)
      case Nil
      with assms Store Cons show ?thesis
        by (auto simp: format_ok_def format_truthy_def split: option.splits if_splits)
    next
      case c2: (Cons w ws)
      with assms Store Cons show ?thesis by simp
    qed
  qed
qed

lemma take_actions_ok:
  "list_all (\<lambda>t. format_ok (fst t)) ts \<Longrightarrow> take_actions ts m = Inr m' \<Longrightarrow> format_truthy m \<Longrightarrow>
   format_truthy m'"
proof (induction ts arbitrary: m)
  case Nil
  then show ?case by simp
next
  case (Cons t ts)
  obtain a args where t: "t = (a, args)" by (cases t)
  with Cons.prems obtain m1 where m1: "take_action a args m = Inr m1" "take_actions ts m1 = Inr m'"
    by (auto split: sum.splits)
  have "format_truthy m1" using take_action_ok [OF _ m1(1) Cons.prems(3)] Cons.prems(1) t by simp
  then show ?case using Cons.IH [OF _ m1(2)] Cons.prems(1) by simp
qed

lemma consume_chain_ok:
  "format_ok a \<Longrightarrow> list_all (\<lambda>t. format_ok (fst t)) tuples \<Longrightarrow>
   consume_chain a os sep ex post tuples = Inr (ts, es, post') \<Longrightarrow>
   list_all (\<lambda>t. format_ok (fst t)) ts \<and> set post' \<subseteq> set post"
proof (induction a os sep ex post tuples rule: consume_chain.induct)
  case (1 a option_string sep post tuples)
  then show ?case
    by (auto simp: consume_chain.simps split: if_splits list.splits argclass.splits)
next
  case (2 a option_string sep explicit_arg post tuples)
  show ?case
  proof (cases "nargs0 a \<and> single_dash option_string \<and> explicit_arg \<noteq> []")
    case False
    with 2(4-6) show ?thesis by (auto simp: consume_chain.simps split: if_splits)
  next
    case T: True
    show ?thesis
    proof (cases "sep \<or> hd explicit_arg = CHR ''-''")
      case True
      with T 2(6) show ?thesis by (simp add: consume_chain.simps)
    next
      case F: False
      show ?thesis
      proof (cases "lookup_option [CHR ''-'', hd explicit_arg]")
        case None
        with T F 2(4-6) show ?thesis by (auto simp: consume_chain.simps)
      next
        case (Some a')
        have a': "format_ok a'" using Some by (rule lookup_ok)
        have tu: "list_all (\<lambda>t. format_ok (fst t)) (tuples @ [(a, [])])"
          using 2(4,5) by simp
        show ?thesis
        proof (cases "tl explicit_arg = []")
          case True
          with T F Some 2(6) have "consume_chain a' [CHR ''-'', hd explicit_arg] False None post
                     (tuples @ [(a, [])]) = Inr (ts, es, post')"
            by (simp add: consume_chain.simps)
          with 2(1) [OF T F Some True a' tu] show ?thesis by blast
        next
          case NE: False
          show ?thesis
          proof (cases "hd (tl explicit_arg) = CHR ''=''")
            case True
            with T F Some NE 2(6) have "consume_chain a' [CHR ''-'', hd explicit_arg] True
                     (Some (tl (tl explicit_arg))) post (tuples @ [(a, [])]) = Inr (ts, es, post')"
              by (simp add: consume_chain.simps)
            with 2(2) [OF T F Some NE True a' tu] show ?thesis by blast
          next
            case False
            with T F Some NE 2(6) have "consume_chain a' [CHR ''-'', hd explicit_arg] False
                     (Some (tl explicit_arg)) post (tuples @ [(a, [])]) = Inr (ts, es, post')"
              by (simp add: consume_chain.simps)
            with 2(3) [OF T F Some NE False a' tu] show ?thesis by blast
          qed
        qed
      qed
    qed
  qed
qed

lemma consume_optional_ok:
  assumes "class_ok (snd item)" "consume_optional item post m ex = Inr (m', ex', post')"
    "format_truthy m"
  shows "format_truthy m' \<and> set post' \<subseteq> set post"
  using assms
proof (induction item post m ex rule: consume_optional.induct)
  case (2 arg a option_string sep explicit_arg post ns extras)
  then obtain ts es where c: "consume_chain a option_string sep explicit_arg post [] = Inr (ts, es, post')"
    and t: "take_actions ts ns = Inr m'"
    by (auto split: sum.splits prod.splits)
  have "format_ok a" using 2(1) by (simp add: class_ok_def)
  from consume_chain_ok [OF this _ c] have ok: "list_all (\<lambda>t. format_ok (fst t)) ts"
    and sub: "set post' \<subseteq> set post" by simp_all
  show ?case using take_actions_ok [OF ok t 2(3)] sub by simp
qed simp_all

lemma take_positional_ok:
  "take_positional args m = Inr m' \<Longrightarrow> format_truthy m \<Longrightarrow> format_truthy m'"
  by (auto simp: take_positional_def format_truthy_def split: list.splits)

lemma parse_loop_ok:
  "list_all (\<lambda>i. class_ok (snd i)) items \<Longrightarrow> parse_loop items pos m extras = Inr (m', ex') \<Longrightarrow>
   format_truthy m \<Longrightarrow> format_truthy m'"
proof (induction items pos m extras rule: parse_loop.induct)
  case (1 items positional m extras)
  show ?case
  proof (cases "list_ex is_O items")
    case False
    with "1.prems"(2,3) show ?thesis
      by (auto simp: parse_loop.simps [of items] Let_def split: if_splits sum.splits
          dest: take_positional_ok)
  next
    case True
    then obtain item post where items: "items = item # post" by (cases items) auto
    from "1.prems"(1) items have ci: "class_ok (snd item)"
      and cp: "list_all (\<lambda>i. class_ok (snd i)) post" by simp_all
    show ?thesis
    proof (cases "is_O item")
      case o: True
      show ?thesis
      proof (cases "consume_optional item post m extras")
        case (Inl e)
        with "1.prems"(2) True items o show ?thesis
          by (simp add: parse_loop.simps [of "item # post"])
      next
        case (Inr r)
        obtain m1 ex1 post1 where r: "r = (m1, ex1, post1)" by (metis prod_cases3)
        from consume_optional_ok [OF ci Inr [unfolded r] "1.prems"(3)]
        have f1: "format_truthy m1" and sub: "set post1 \<subseteq> set post" by simp_all
        from cp sub have c1: "list_all (\<lambda>i. class_ok (snd i)) post1"
          by (auto simp: list_all_iff)
        have run: "parse_loop post1 positional m1 ex1 = Inr (m', ex')"
          using "1.prems"(2) True items o Inr r
          by (simp add: parse_loop.simps [of "item # post"])
        show ?thesis
          using "1.IH"(1) [OF _ items o Inr, of m1 "(ex1, post1)" ex1 post1] True r c1 run f1
          by simp
      qed
    next
      case no: False
      have cd: "list_all (\<lambda>i. class_ok (snd i)) (dropWhile (\<lambda>i. \<not> is_O i) post)"
        using cp by (auto simp: list_all_iff dest: set_dropWhileD)
      show ?thesis
      proof (cases positional)
        case p: True
        define n where "n = match_positional (map snd items)"
        show ?thesis
        proof (cases "take_positional (map fst (take n items)) m")
          case (Inl e)
          with "1.prems"(2) True items no p n_def show ?thesis
            by (simp add: parse_loop.simps [of "item # post"] Let_def)
        next
          case (Inr m1)
          have f1: "format_truthy m1" using take_positional_ok [OF Inr "1.prems"(3)] .
          show ?thesis
          proof (cases "n > 0")
            case gt: True
            have c1: "list_all (\<lambda>i. class_ok (snd i)) (drop n items)"
              using "1.prems"(1) by (auto simp: list_all_iff dest: in_set_dropD)
            have run: "parse_loop (drop n items) False m1 extras = Inr (m', ex')"
              using "1.prems"(2) True items no p n_def Inr gt
              by (simp add: parse_loop.simps [of "item # post"] Let_def)
            show ?thesis
              using "1.IH"(2) [OF _ items no p n_def Inr gt] True c1 run f1 by simp
          next
            case ngt: False
            have run: "parse_loop (dropWhile (\<lambda>i. \<not> is_O i) post) False m1
                (extras @ map fst (item # takeWhile (\<lambda>i. \<not> is_O i) post)) = Inr (m', ex')"
              using "1.prems"(2) True items no p n_def Inr ngt
              by (simp add: parse_loop.simps [of "item # post"] Let_def)
            show ?thesis
              using "1.IH"(3) [OF _ items no p n_def Inr ngt] True cd run f1 by simp
          qed
        qed
      next
        case np: False
        have run: "parse_loop (dropWhile (\<lambda>i. \<not> is_O i) post) False m
            (extras @ map fst (item # takeWhile (\<lambda>i. \<not> is_O i) post)) = Inr (m', ex')"
          using "1.prems"(2) True items no np
          by (simp add: parse_loop.simps [of "item # post"])
        show ?thesis
          using "1.IH"(4) [OF _ items no np] True cd run "1.prems"(3) by simp
      qed
    qed
  qed
qed

lemma option_settings_format:
  assumes "option_settings args = Inr m" "m ''format'' = Some f"
  shows "truthy f"
proof -
  from assms(1) obtain classes ex where c: "classify_args args = Inr classes"
    and p: "parse_loop (zip args classes) True Map.empty [] = Inr (m, ex)"
    by (auto simp: option_settings_def split: sum.splits if_splits)
  have "list_all class_ok classes" using c by (rule classify_ok)
  then have "list_all (\<lambda>i. class_ok (snd i)) (zip args classes)"
    by (auto simp: list_all_iff dest: set_zip_rightD)
  from parse_loop_ok [OF this p] have "format_truthy m" by (simp add: format_truthy_def)
  with assms(2) show ?thesis by (simp add: format_truthy_def)
qed

lemma parse_args_settings:
  "parse_args denc args ns =
     (case option_settings args of
        Inl e \<Rightarrow> Inl e
      | Inr m \<Rightarrow> Inr (add_defaults denc ns ++ m))"
  by (simp add: parse_args_merge option_settings_def split: sum.splits)

subsection \<open>Lines, blank lines and the search for \<^verbatim>\<open>\input\<close>\<close>

lemma concat_splitlines_acc: "concat (splitlines_acc cur s) = rev cur @ s"
  by (induction cur s rule: splitlines_acc.induct) auto

lemma concat_splitlines: "concat (splitlines s) = s"
  by (simp add: splitlines_def concat_splitlines_acc)

lemma isspace_LF: "isspace LF"
  by (simp add: isspace_def LF_def)


lemma dropWhile_blank: "blank w \<Longrightarrow> dropWhile isspace (w @ s) = dropWhile isspace s"
  by (induction w) (auto simp: blank_def)

lemma input_at_blank: "blank w \<Longrightarrow> input_at (w @ s) = input_at s"
  by (simp add: input_at_def dropWhile_blank)

lemma search_from_no_match:
  "pat s = None \<Longrightarrow> search_from pat b s = search_from pat b2 s"
  by (cases s) auto

lemma search_from_blank_None:
  "blank w \<Longrightarrow> input_at post = None \<Longrightarrow>
   search_from input_at b (w @ post) = search_from input_at b2 post"
proof (induction w arbitrary: b)
  case Nil
  then show ?case by (simp add: search_from_no_match [of input_at post b b2])
next
  case (Cons c cs)
  then have "blank cs" by (simp add: blank_def)
  have "input_at (c # cs @ post) = None"
    using input_at_blank [OF Cons.prems(1), of post] Cons.prems(2) by simp
  then show ?case using Cons.IH [OF \<open>blank cs\<close> Cons.prems(2)] by simp
qed

lemma search_from_blank:
  "blank w \<Longrightarrow> search_from input_at True (w @ post) = search_from input_at True post"
proof (cases "input_at post")
  case None
  assume "blank w"
  then show ?thesis using None by (rule search_from_blank_None)
next
  case (Some g)
  assume w: "blank w"
  have p: "search_from input_at True post = Some g"
    using Some by (cases post) (auto simp: input_at_def)
  show ?thesis
  proof (cases w)
    case Nil
    then show ?thesis by simp
  next
    case (Cons c cs)
    have "input_at (c # cs @ post) = Some g"
      using input_at_blank [OF w, of post] Some Cons by simp
    then show ?thesis using p Cons by simp
  qed
qed

lemma scan_until_LF: "LF \<in> set u \<Longrightarrow> scan_until x (u @ r) = scan_until x u"
  by (induction u) auto

lemma take_lit_LF:
  assumes "LF \<in> set t" "LF \<notin> set lit"
  shows "(take (length lit) (t @ r) = lit) = (take (length lit) t = lit)"
proof (cases "length lit \<le> length t")
  case True
  then show ?thesis by simp
next
  case False
  then have a: "take (length lit) t \<noteq> lit"
    by (metis length_take min.absorb1 nat_le_linear)
  have "take (length lit) (t @ r) \<noteq> lit"
  proof
    assume "take (length lit) (t @ r) = lit"
    then have "t @ take (length lit - length t) r = lit" using False by simp
    then have "set t \<subseteq> set lit" by (metis set_append Un_upper1)
    with assms show False by blast
  qed
  with a show ?thesis by simp
qed

lemma input_at_line:
  assumes "\<not> blank p" "last p = LF"
  shows "input_at (p @ r) = input_at p"
proof -
  obtain x where x: "x \<in> set p" "\<not> isspace x"
    using assms(1) by (auto simp: blank_def list_all_iff)
  define t where "t = dropWhile isspace p"
  have d: "dropWhile isspace (p @ r) = t @ r"
    unfolding t_def using x by (simp add: dropWhile_append1)
  have tne: "t \<noteq> []" unfolding t_def using x by auto
  have "p = takeWhile isspace p @ t" unfolding t_def by simp
  then have "last p = last t" using tne by (metis last_appendR)
  then have lf: "LF \<in> set t" using assms(2) tne by (metis last_in_set)
  have lit: "LF \<notin> set (BSLASH # ''input{'')" by (simp add: LF_def BSLASH_def)
  have len7: "length (BSLASH # ''input{'') = 7" by simp
  have tk: "(take 7 (t @ r) = BSLASH # ''input{'') = (take 7 t = BSLASH # ''input{'')"
    using take_lit_LF [OF lf lit, of r] by (simp only: len7)
  show ?thesis
  proof (cases "take 7 t = BSLASH # ''input{''")
    case False
    then show ?thesis using tk d by (simp add: input_at_def t_def)
  next
    case True
    then have "length (take 7 t) = 7" by simp
    then have len: "7 \<le> length t" by simp
    define u where "u = drop 7 t"
    have "set t = set (take 7 t) \<union> set u" unfolding u_def by (metis append_take_drop_id set_append)
    with lf lit True have lfu: "LF \<in> set u" by auto
    have dr: "drop 7 (t @ r) = u @ r" unfolding u_def using len by simp
    have "(case u @ r of [] \<Rightarrow> None
            | c # cs \<Rightarrow> if c = LF then None else map_option ((#) c) (scan_until (CHR ''}'') cs)) =
          (case u of [] \<Rightarrow> None
            | c # cs \<Rightarrow> if c = LF then None else map_option ((#) c) (scan_until (CHR ''}'') cs))"
    proof (cases u)
      case Nil
      with lfu show ?thesis by simp
    next
      case (Cons c cs)
      show ?thesis
      proof (cases "c = LF")
        case True
        with Cons show ?thesis by simp
      next
        case False
        with lfu Cons have "LF \<in> set cs" by auto
        then show ?thesis using Cons by (simp add: scan_until_LF)
      qed
    qed
    then show ?thesis using True tk d dr unfolding input_at_def t_def [symmetric] u_def [symmetric]
      by (simp add: Let_def u_def)
  qed
qed

lemma input_at_insert_blank:
  assumes "p \<noteq> []" "last p = LF" "blank w"
  shows "input_at (p @ w @ post) = input_at (p @ post)"
proof (cases "blank p")
  case True
  then show ?thesis using assms(3) by (simp add: input_at_blank)
next
  case False
  then show ?thesis using assms(2) by (simp add: input_at_line)
qed

lemma search_input_insert_blank:
  assumes "blank w"
  shows "(pre = [] \<longrightarrow> b) \<Longrightarrow> pre = [] \<or> last pre = LF \<Longrightarrow>
         search_from input_at b (pre @ w @ post) = search_from input_at b (pre @ post)"
proof (induction pre arbitrary: b)
  case Nil
  then show ?case using search_from_blank [OF assms] by simp
next
  case (Cons c cs)
  have l: "last (c # cs) = LF" using Cons.prems(2) by simp
  have at: "input_at (c # cs @ w @ post) = input_at (c # cs @ post)"
    using input_at_insert_blank [of "c # cs" w post] l assms by simp
  have "search_from input_at (c = LF) (cs @ w @ post) = search_from input_at (c = LF) (cs @ post)"
  proof (rule Cons.IH)
    show "cs = [] \<longrightarrow> c = LF" using l by auto
    show "cs = [] \<or> last cs = LF" using l by (auto split: if_splits)
  qed
  then show ?case using at by (simp split: option.split)
qed

lemma strip_blank_lines_insert:
  "blank w \<Longrightarrow> strip_blank_lines (xs @ w # ys) = strip_blank_lines (xs @ ys)"
  by (simp add: strip_blank_lines_def)

lemma convert_lines_insert:
  "blank w \<Longrightarrow> convert_lines env options (xs @ w # ys) = convert_lines env options (xs @ ys)"
  by (simp add: convert_lines_def prepare_conversion_def strip_blank_lines_insert)

lemma search_input_insert:
  assumes "blank w" "concat xs = [] \<or> last (concat xs) = LF"
  shows "search_input (concat (xs @ w # ys)) = search_input (concat (xs @ ys))"
  using search_input_insert_blank [OF assms(1), of "concat xs" True "concat ys"] assms(2)
  by (simp add: search_input_def)






subsection \<open>Running the model in the sample environment\<close>

lemma sample_options:
  "convert_graph_options ''utf8'' Map.empty =
     Inr ((add_defaults ''utf8'' Map.empty)(''inputfile'' \<mapsto> PNone))"
  by (simp add: convert_graph_options_def parse_args_Nil rename_preproc_def)

lemmas sample_run_simps =
  convert_graph_def sample_env_def sample_options main_module_def read_input_def
  getattr_def add_defaults_def defaults_def map_add_def follow_input_def splitlines_def
  is_linebreak_def CR_def LF_def BSLASH_def DQUOTE_def search_input_def input_at_def isspace_def
  load_dot_file_def convert_lines_def prepare_conversion_def strip_blank_lines_def blank_def
  resolve_options_def first_d2toptions_def d2toptions_at_def select_converter_def
  run_conversion_def

subsection \<open>Claim C3: the dialect selectors\<close>

text \<open>
  C3 says that exactly the five selectors pstricks, psn, pgf, tikz and positions are
  accepted. The dispatch of main also accepts \<^verbatim>\<open>pst\<close>, and the \<^verbatim>\<open>-f\<close> option of the parser
  rejects \<^verbatim>\<open>positions\<close>.
\<close>

theorem C3_counterexample:
  "select_converter (PStr ''pst'') = Inr Dot2PSTricksConv \<and>
   parse_args ''utf8'' [''-f'', ''positions''] Map.empty = Inl (SystemExit 2)"
  by (simp add: select_converter_def parse_format_value)

text \<open>
  C3 as amended: the dispatch of main accepts exactly six values of the output format,
  pstricks and pst (both the PSTricks converter), psn, pgf, tikz and positions, and
  exits with status 1 on any other value; the \<^verbatim>\<open>-f\<close> option of the parser accepts
  exactly pstricks, pgf, pst, tikz and psn as its value, and the parser exits with
  status 2 on any other.
\<close>

theorem C3_selectors:
  "select_converter v =
     (case map_of [(PStr ''pstricks'', Dot2PSTricksConv), (PStr ''pst'', Dot2PSTricksConv),
                   (PStr ''psn'', Dot2PSTricksNConv), (PStr ''pgf'', Dot2PGFConv),
                   (PStr ''tikz'', Dot2TikZConv), (PStr ''positions'', PositionsDotConv)] v of
        Some cls \<Rightarrow> Inr cls
      | None \<Rightarrow> Inl (SystemExit 1)) \<and>
   parse_args denc [''-f'', s] ns =
     (if s \<in> set [''pstricks'', ''pgf'', ''pst'', ''tikz'', ''psn'']
      then Inr ((add_defaults denc ns)(''format'' \<mapsto> PStr s, ''inputfile'' \<mapsto> PNone))
      else Inl (SystemExit 2))"
proof
  show "select_converter v =
     (case map_of [(PStr ''pstricks'', Dot2PSTricksConv), (PStr ''pst'', Dot2PSTricksConv),
                   (PStr ''psn'', Dot2PSTricksNConv), (PStr ''pgf'', Dot2PGFConv),
                   (PStr ''tikz'', Dot2TikZConv), (PStr ''positions'', PositionsDotConv)] v of
        Some cls \<Rightarrow> Inr cls
      | None \<Rightarrow> Inl (SystemExit 1))"
    by (simp add: select_converter_def)
next
  show "parse_args denc [''-f'', s] ns =
     (if s \<in> set [''pstricks'', ''pgf'', ''pst'', ''tikz'', ''psn'']
      then Inr ((add_defaults denc ns)(''format'' \<mapsto> PStr s, ''inputfile'' \<mapsto> PNone))
      else Inl (SystemExit 2))"
    by (rule parse_format_value)
qed

subsection \<open>Claim C10: the keyword \<^verbatim>\<open>preproc\<close>\<close>
















lemma sample_preproc_runs:
  "convert_graph sample_env_preproc ''digraph G {a -> b;}'' [''preproc'' \<mapsto> PBool True] =
     Inr ''% preproc digraph G {a -> b;}'' \<and>
   convert_graph sample_env_preproc ''digraph G {a -> b;}'' [''preproc'' \<mapsto> PBool False] =
     Inr ''digraph G {a -> b;}''"
  by (simp add: convert_graph_def convert_graph_options_def parse_args_Nil rename_preproc_def
      sample_env_preproc_def sample_run_simps is_lower_def)

subsection \<open>Claim C8: blank lines\<close>

text \<open>
  C8 says that inserting or removing a line of white space never changes the output. The
  search for \<^verbatim>\<open>\input\<close> runs on the text before the blank lines are dropped, and its
  line starts are the positions after a line feed, while \<^verbatim>\<open>splitlines\<close> also ends a line at
  a lone carriage return. The source \<^verbatim>\<open>a\r\input{f}\<close> has the lines \<^verbatim>\<open>a\r\<close> and
  \<^verbatim>\<open>\input{f}\<close>, and no line start before \<^verbatim>\<open>\input\<close>: it is converted as it is. With the
  blank line \<^verbatim>\<open> \n\<close> inserted between the two lines, \<^verbatim>\<open>\input{f}\<close> is found and the file
  \<^verbatim>\<open>f\<close> is loaded, which fails in the sample environment.
\<close>

theorem C8_counterexample:
  "splitlines (CHR ''a'' # CR # CHR '' '' # LF # BSLASH # ''input{f}'') =
     [[CHR ''a'', CR], [CHR '' '', LF], BSLASH # ''input{f}''] \<and>
   splitlines (CHR ''a'' # CR # BSLASH # ''input{f}'') = [[CHR ''a'', CR], BSLASH # ''input{f}''] \<and>
   blank [CHR '' '', LF] \<and>
   convert_graph sample_env (CHR ''a'' # CR # CHR '' '' # LF # BSLASH # ''input{f}'') Map.empty =
     Inl (OtherException ''FileNotFoundError'') \<and>
   convert_graph sample_env (CHR ''a'' # CR # BSLASH # ''input{f}'') Map.empty =
     Inr (CHR ''a'' # CR # BSLASH # ''input{f}'')"
  by (simp add: sample_run_simps)

text \<open>
  C8 as amended. First, what main does with blank lines: when main has read the lines
  \<open>lines\<close> (the lines of the source, or of the file of an \<^verbatim>\<open>\input\<close> line) and gets as far as
  the converter, the text \<open>data\<close> that the options are read from and that \<^verbatim>\<open>convert\<close> is
  called with is the concatenation, in their order, of exactly the lines that have a
  character that is not white space, each of them unchanged. Second, when a line of white
  space \<open>w\<close> is inserted at the start of the input or after a line that ends in a line
  feed (\<open>src'\<close> has the lines of \<open>src\<close> with \<open>w\<close> between \<open>xs\<close> and \<open>ys\<close>), main and
  \<^verbatim>\<open>convert_graph\<close> give the same result on both sources.
\<close>

theorem C8_blank_line:
  "(read_input env src options = Inr lines \<and>
    prepare_conversion env options lines = Inr (conv, options', data) \<longrightarrow>
      data = concat (filter (\<lambda>line. \<not> list_all isspace line) lines) \<and>
      resolve_options env options data = Inr options' \<and>
      main_module env src options = run_conversion env conv options' data) \<and>
   (splitlines src' = xs @ w # ys \<and> splitlines src = xs @ ys \<and> blank w \<and>
    (concat xs = [] \<or> last (concat xs) = LF) \<longrightarrow>
      main_module env src' options = main_module env src options \<and>
      convert_graph env src' kwargs = convert_graph env src kwargs)"
proof (intro conjI impI)
  assume a: "read_input env src options = Inr lines \<and>
    prepare_conversion env options lines = Inr (conv, options', data)"
  then have p: "prepare_conversion env options lines = Inr (conv, options', data)" by simp
  then show d: "data = concat (filter (\<lambda>line. \<not> list_all isspace line) lines)"
    by (auto simp: prepare_conversion_def strip_blank_lines_def blank_def Let_def
        split: sum.splits)
  from p have "data = strip_blank_lines lines"
    by (auto simp: prepare_conversion_def Let_def split: sum.splits)
  with p show "resolve_options env options data = Inr options'"
    by (auto simp: prepare_conversion_def Let_def split: sum.splits)
  from a show "main_module env src options = run_conversion env conv options' data"
    by (simp add: main_module_def convert_lines_def)
next
  assume h: "splitlines src' = xs @ w # ys \<and> splitlines src = xs @ ys \<and> blank w \<and>
    (concat xs = [] \<or> last (concat xs) = LF)"
  then have w: "blank w" and l: "concat xs = [] \<or> last (concat xs) = LF"
    and s': "splitlines src' = xs @ w # ys" and s: "splitlines src = xs @ ys"
    by simp_all
  have f: "follow_input env (xs @ w # ys) = follow_input env (xs @ ys) \<or>
        (follow_input env (xs @ w # ys) = Inr (xs @ w # ys) \<and>
         follow_input env (xs @ ys) = Inr (xs @ ys))"
    using search_input_insert [OF w l, of ys]
    by (cases "search_input (concat (xs @ ys))") (simp_all add: follow_input_def)
  have main: "main_module env src' opts = main_module env src opts" for opts
  proof -
    have "(case follow_input env (xs @ w # ys) of Inl e \<Rightarrow> Inl e
              | Inr d \<Rightarrow> convert_lines env opts d) =
             (case follow_input env (xs @ ys) of Inl e \<Rightarrow> Inl e
              | Inr d \<Rightarrow> convert_lines env opts d)"
      using f convert_lines_insert [OF w, of env opts xs ys] by auto
    then show ?thesis
      using s' s
      by (simp add: main_module_def read_input_def split: sum.splits)
  qed
  show "main_module env src' options = main_module env src options" by (rule main)
  show "convert_graph env src' kwargs = convert_graph env src kwargs"
    by (simp add: main convert_graph_def split: sum.split)
qed

theorem C8_blank_line_witness:
  "read_input sample_env (''a'' @ [LF] @ '' '' @ [LF] @ ''b '' @ [LF])
       ((add_defaults ''utf8'' Map.empty)(''inputfile'' \<mapsto> PNone)) =
     Inr [''a'' @ [LF], '' '' @ [LF], ''b '' @ [LF]] \<and>
   prepare_conversion sample_env ((add_defaults ''utf8'' Map.empty)(''inputfile'' \<mapsto> PNone))
       [''a'' @ [LF], '' '' @ [LF], ''b '' @ [LF]] =
     Inr ((), (add_defaults ''utf8'' Map.empty)(''inputfile'' \<mapsto> PNone, ''format'' \<mapsto> PStr ''pgf''),
          ''a'' @ [LF] @ ''b '' @ [LF]) \<and>
   main_module sample_env (''a'' @ [LF] @ '' '' @ [LF] @ ''b '' @ [LF])
       ((add_defaults ''utf8'' Map.empty)(''inputfile'' \<mapsto> PNone)) =
     run_conversion sample_env ()
       ((add_defaults ''utf8'' Map.empty)(''inputfile'' \<mapsto> PNone, ''format'' \<mapsto> PStr ''pgf''))
       (''a'' @ [LF] @ ''b '' @ [LF]) \<and>
   splitlines (''a'' @ [LF] @ '' '' @ [LF] @ ''b '' @ [LF]) =
     [''a'' @ [LF]] @ ('' '' @ [LF]) # [''b '' @ [LF]] \<and>
   splitlines (''a'' @ [LF] @ ''b '' @ [LF]) = [''a'' @ [LF]] @ [''b '' @ [LF]] \<and>
   blank ('' '' @ [LF]) \<and>
   last (concat [''a'' @ [LF]]) = LF \<and>
   main_module sample_env (''a'' @ [LF] @ '' '' @ [LF] @ ''b '' @ [LF])
       ((add_defaults ''utf8'' Map.empty)(''inputfile'' \<mapsto> PNone)) =
     main_module sample_env (''a'' @ [LF] @ ''b '' @ [LF])
       ((add_defaults ''utf8'' Map.empty)(''inputfile'' \<mapsto> PNone)) \<and>
   convert_graph sample_env (''a'' @ [LF] @ '' '' @ [LF] @ ''b '' @ [LF]) Map.empty =
     convert_graph sample_env (''a'' @ [LF] @ ''b '' @ [LF]) Map.empty"
proof -
  let ?o = "(add_defaults ''utf8'' Map.empty)(''inputfile'' \<mapsto> PNone)"
  let ?src' = "''a'' @ [LF] @ '' '' @ [LF] @ ''b '' @ [LF]"
  let ?src = "''a'' @ [LF] @ ''b '' @ [LF]"
  have r: "read_input sample_env ?src' ?o = Inr [''a'' @ [LF], '' '' @ [LF], ''b '' @ [LF]]"
    by (simp add: sample_run_simps)
  have p: "prepare_conversion sample_env ?o [''a'' @ [LF], '' '' @ [LF], ''b '' @ [LF]] =
     Inr ((), ?o(''format'' \<mapsto> PStr ''pgf''), ''a'' @ [LF] @ ''b '' @ [LF])"
    by (simp add: sample_run_simps is_lower_def)
  have a: "splitlines ?src' = [''a'' @ [LF]] @ ('' '' @ [LF]) # [''b '' @ [LF]]"
    by (simp add: splitlines_def is_linebreak_def CR_def LF_def)
  have b: "splitlines ?src = [''a'' @ [LF]] @ [''b '' @ [LF]]"
    by (simp add: splitlines_def is_linebreak_def CR_def LF_def)
  have c: "blank ('' '' @ [LF])" by (simp add: blank_def isspace_def LF_def)
  have d: "concat [''a'' @ [LF]] = [] \<or> last (concat [''a'' @ [LF]]) = LF" by simp
  have k: "main_module sample_env ?src' ?o =
      run_conversion sample_env () (?o(''format'' \<mapsto> PStr ''pgf'')) (''a'' @ [LF] @ ''b '' @ [LF])"
    using C8_blank_line [where env = sample_env and src = ?src' and options = ?o
        and lines = "[''a'' @ [LF], '' '' @ [LF], ''b '' @ [LF]]" and conv = "()"
        and options' = "?o(''format'' \<mapsto> PStr ''pgf'')" and data = "''a'' @ [LF] @ ''b '' @ [LF]",
        THEN conjunct1] r p
    by blast
  have i: "main_module sample_env ?src' ?o = main_module sample_env ?src ?o \<and>
      convert_graph sample_env ?src' Map.empty = convert_graph sample_env ?src Map.empty"
    using C8_blank_line [where env = sample_env and src' = ?src' and src = ?src
        and xs = "[''a'' @ [LF]]" and w = "'' '' @ [LF]" and ys = "[''b '' @ [LF]]"
        and options = ?o and kwargs = Map.empty, THEN conjunct2] a b c d
    by blast
  show ?thesis using r p k a b c i by simp
qed

subsection \<open>Claim C9: \<^verbatim>\<open>\input\<close> replaces the data\<close>



subsection \<open>Claim C5: a parse failure reaches the caller\<close>

text \<open>
  C5: when main, run as a module, has read the input and constructed the converter, and
  \<^verbatim>\<open>conv.convert\<close> raises the parser's \<^verbatim>\<open>ParseException\<close> on the data, main raises this
  exception, and so does \<^verbatim>\<open>convert_graph\<close>: nothing is recovered.
\<close>

theorem C5_parse_exception_reraised:
  assumes "read_input env dotsource options = Inr lines"
    and "prepare_conversion env options lines = Inr (conv, options', dotdata)"
    and "fst (convert env conv options' dotdata) = Inl (ParseException m)"
  shows "main_module env dotsource options = Inl (ParseException m) \<and>
         (convert_graph_options (DEFAULT_TEXTENCODING env) kwargs = Inr options \<longrightarrow>
          convert_graph env dotsource kwargs = Inl (ParseException m))"
proof -
  have "run_conversion env conv options' dotdata = Inl (ParseException m)"
    using assms(3) by (cases "convert env conv options' dotdata") (auto simp: run_conversion_def)
  then have "main_module env dotsource options = Inl (ParseException m)"
    using assms(1,2) by (simp add: main_module_def convert_lines_def)
  then show ?thesis by (simp add: convert_graph_def)
qed

theorem C5_parse_exception_reraised_witness:
  "read_input sample_env_parse_error ''graph {''
      ((add_defaults ''utf8'' Map.empty)(''inputfile'' \<mapsto> PNone)) = Inr [''graph {''] \<and>
   fst (convert sample_env_parse_error ()
      ((add_defaults ''utf8'' Map.empty)(''inputfile'' \<mapsto> PNone, ''format'' \<mapsto> PStr ''pgf''))
      ''graph {'') = Inl (ParseException ''Expected graph'') \<and>
   main_module sample_env_parse_error ''graph {''
      ((add_defaults ''utf8'' Map.empty)(''inputfile'' \<mapsto> PNone)) =
     Inl (ParseException ''Expected graph'') \<and>
   convert_graph sample_env_parse_error ''graph {'' Map.empty =
     Inl (ParseException ''Expected graph'')"
proof -
  have a: "read_input sample_env_parse_error ''graph {''
      ((add_defaults ''utf8'' Map.empty)(''inputfile'' \<mapsto> PNone)) = Inr [''graph {'']"
    by (simp add: sample_env_parse_error_def sample_run_simps)
  have b: "prepare_conversion sample_env_parse_error
      ((add_defaults ''utf8'' Map.empty)(''inputfile'' \<mapsto> PNone)) [''graph {''] =
     Inr ((), (add_defaults ''utf8'' Map.empty)(''inputfile'' \<mapsto> PNone, ''format'' \<mapsto> PStr ''pgf''),
          ''graph {'')"
    by (simp add: sample_env_parse_error_def sample_run_simps)
  have c: "fst (convert sample_env_parse_error ()
      ((add_defaults ''utf8'' Map.empty)(''inputfile'' \<mapsto> PNone, ''format'' \<mapsto> PStr ''pgf''))
      ''graph {'') = Inl (ParseException ''Expected graph'')"
    by (simp add: sample_env_parse_error_def sample_env_def)
  have d: "convert_graph_options (DEFAULT_TEXTENCODING sample_env_parse_error) Map.empty =
      Inr ((add_defaults ''utf8'' Map.empty)(''inputfile'' \<mapsto> PNone))"
    by (simp add: sample_env_parse_error_def sample_env_def sample_options)
  show ?thesis
    using C5_parse_exception_reraised [OF a b c, of Map.empty] a c d by simp
qed

subsection \<open>Claim C4: what aborts a conversion\<close>



lemma read_input_returns:
  "read_input env dotdata options = Inr lines \<longleftrightarrow>
     (\<exists>rt dbg. options ''runtests'' = Some rt \<and> \<not> truthy rt \<and> options ''debug'' = Some dbg \<and>
        (case search_input dotdata of
           None \<Rightarrow> lines = splitlines dotdata
         | Some filename \<Rightarrow> load_dot_file env filename = Inr lines))"
  by (auto simp: read_input_def getattr_def follow_input_def concat_splitlines
      split: option.splits)



lemma resolve_options_format:
  "resolve_options env options data = Inr options' \<Longrightarrow> \<exists>fmt. options' ''format'' = Some fmt"
  by (auto simp: resolve_options_def getattr_def Let_def split: option.splits sum.splits)

lemma prepare_conversion_raises:
  "prepare_conversion env options lines = Inl e \<longleftrightarrow>
     (options ''cache'' = None \<and> e = AttributeError ''cache'') \<or>
     (\<exists>c. options ''cache'' = Some c \<and>
        (resolve_options env options (strip_blank_lines lines) = Inl e \<or>
         (\<exists>options' fmt.
            resolve_options env options (strip_blank_lines lines) = Inr options' \<and>
            options' ''format'' = Some fmt \<and>
            (select_converter fmt = Inl e \<or>
             (\<exists>cls. select_converter fmt = Inr cls \<and> new_converter env cls options' = Inl e)))))"
proof (cases "options ''cache''")
  case None
  then show ?thesis by (auto simp: prepare_conversion_def getattr_def)
next
  case (Some c)
  show ?thesis
  proof (cases "resolve_options env options (strip_blank_lines lines)")
    case (Inl e')
    with Some show ?thesis by (auto simp: prepare_conversion_def getattr_def)
  next
    case (Inr options')
    from resolve_options_format [OF Inr] obtain fmt where f: "options' ''format'' = Some fmt"
      by auto
    show ?thesis
    proof (cases "select_converter fmt")
      case (Inl e')
      with Some Inr f show ?thesis by (auto simp: prepare_conversion_def getattr_def)
    next
      case cls: (Inr cls)
      with Some Inr f show ?thesis
        by (auto simp: prepare_conversion_def getattr_def split: sum.splits)
    qed
  qed
qed

lemma prepare_conversion_returns:
  "prepare_conversion env options lines = Inr (conv, options', data) \<longleftrightarrow>
     data = strip_blank_lines lines \<and>
     (\<exists>c fmt cls. options ''cache'' = Some c \<and>
        resolve_options env options (strip_blank_lines lines) = Inr options' \<and>
        options' ''format'' = Some fmt \<and> select_converter fmt = Inr cls \<and>
        new_converter env cls options' = Inr conv)"
  by (auto simp: prepare_conversion_def getattr_def Let_def split: option.splits sum.splits)






subsection \<open>Claim C2: \<^verbatim>\<open>d2toptions="--straightedges"\<close>\<close>

lemma split_straightedges: "split_ws ''--straightedges'' = [''--straightedges'']"
  by (simp add: split_ws_def isspace_def)

lemma parse_straightedges:
  "parse_args denc [''--straightedges''] ns =
     Inr ((add_defaults denc ns)(''straightedges'' \<mapsto> PBool True, ''inputfile'' \<mapsto> PNone))"
  by (simp add: parse_args_def parse_optional_def lookup_option_def option_string_actions_def
        optionals_def parse_loop.simps is_O_def consume_chain.simps match_positional_def
        take_positional_def)

lemmas parser_run_simps =
  split_ws_def parse_args_def parse_optional_def lookup_option_def option_string_actions_def
  optionals_def parse_loop.simps is_O_def consume_chain.simps match_positional_def
  take_positional_def

text \<open>
  C2 says that a graph whose source has the line \<^verbatim>\<open>d2toptions="--straightedges"\<close> is
  converted with straight edges. Main parses only the first \<^verbatim>\<open>d2toptions\<close> line that its
  pattern finds. In \<open>two_options_graph\<close> the attribute is set twice, last to
  \<^verbatim>\<open>--straightedges\<close>; the converter is constructed with \<^verbatim>\<open>figonly\<close> set and
  \<^verbatim>\<open>straightedges\<close> False.
\<close>

theorem C2_counterexample:
  "(case prepare_conversion sample_env ((add_defaults ''utf8'' Map.empty)(''inputfile'' \<mapsto> PNone))
           (splitlines two_options_graph) of
      Inl e \<Rightarrow> Inl e
    | Inr (conv, options', dotdata) \<Rightarrow> Inr (options' ''figonly'', options' ''straightedges'')) =
   Inr (Some (PBool True), Some (PBool False))"
  by (simp add: two_options_graph_def sample_run_simps parser_run_simps)

text \<open>
  C2 as amended: when the first \<^verbatim>\<open>d2toptions\<close> line that main finds in the data (after an
  \<^verbatim>\<open>\input\<close> line was followed and the blank lines were dropped) holds
  \<^verbatim>\<open>--straightedges\<close>, and main gets as far as the conversion, the converter is constructed
  and called with the option \<^verbatim>\<open>straightedges\<close> set to True. How the edges are drawn from
  there is the converter's part.
\<close>

theorem C2_straightedges_option:
  assumes "read_input env src options = Inr lines"
    and "first_d2toptions (strip_blank_lines lines) = Some ''--straightedges''"
    and "prepare_conversion env options lines = Inr (conv, options', dotdata)"
  shows "options' ''straightedges'' = Some (PBool True) \<and>
         main_module env src options = run_conversion env conv options' dotdata"
proof -
  have "resolve_options env options (strip_blank_lines lines) = Inr options'"
    using assms(3)
    by (auto simp: prepare_conversion_def Let_def split: sum.splits)
  then have "options' ''straightedges'' = Some (PBool True)"
    using assms(2)
    by (auto simp: resolve_options_def Let_def split_straightedges parse_straightedges getattr_def
        split: option.splits)
  then show ?thesis using assms(1,3) by (simp add: main_module_def convert_lines_def)
qed

theorem C2_straightedges_option_witness:
  "read_input sample_env straight_graph ((add_defaults ''utf8'' Map.empty)(''inputfile'' \<mapsto> PNone)) =
     Inr (splitlines straight_graph) \<and>
   first_d2toptions (strip_blank_lines (splitlines straight_graph)) = Some ''--straightedges'' \<and>
   (case prepare_conversion sample_env ((add_defaults ''utf8'' Map.empty)(''inputfile'' \<mapsto> PNone))
           (splitlines straight_graph) of
      Inl e \<Rightarrow> False
    | Inr (conv, options', dotdata) \<Rightarrow>
        options' ''straightedges'' = Some (PBool True) \<and>
        main_module sample_env straight_graph
          ((add_defaults ''utf8'' Map.empty)(''inputfile'' \<mapsto> PNone)) =
        run_conversion sample_env conv options' dotdata)"
proof -
  have a: "read_input sample_env straight_graph
      ((add_defaults ''utf8'' Map.empty)(''inputfile'' \<mapsto> PNone)) = Inr (splitlines straight_graph)"
    by (simp add: straight_graph_def sample_run_simps)
  have b: "first_d2toptions (strip_blank_lines (splitlines straight_graph)) =
      Some ''--straightedges''"
    by (simp add: straight_graph_def sample_run_simps)
  have "\<not> isl (prepare_conversion sample_env
      ((add_defaults ''utf8'' Map.empty)(''inputfile'' \<mapsto> PNone)) (splitlines straight_graph))"
    by (simp add: straight_graph_def sample_run_simps parser_run_simps)
  then obtain conv options' dotdata where c: "prepare_conversion sample_env
      ((add_defaults ''utf8'' Map.empty)(''inputfile'' \<mapsto> PNone)) (splitlines straight_graph) =
      Inr (conv, options', dotdata)"
    by (metis isl_def sum.exhaust_sel prod_cases3)
  show ?thesis
    using C2_straightedges_option [OF a b c] a b c by simp
qed

subsection \<open>Claim C1: the precedence of the options\<close>

text \<open>
  C1 says that a \<^verbatim>\<open>d2toutputformat\<close> attribute found in the graph source supplies the dialect
  when the command line gives none. Main takes the attribute from the first place where
  the text \<^verbatim>\<open>d2toutputformat=\<close> stands in the source, and its value is the lower-case letters
  that follow directly. In \<open>quoted_format_graph\<close> the attribute is written
  \<^verbatim>\<open>d2toutputformat="tikz"\<close>: no letter follows the equals sign, and the dialect is the
  default \<^verbatim>\<open>pgf\<close>. Written without quotes the attribute gives \<^verbatim>\<open>tikz\<close>.
\<close>

theorem C1_counterexample:
  "resolve_options sample_env ((add_defaults ''utf8'' Map.empty)(''inputfile'' \<mapsto> PNone))
       quoted_format_graph =
     Inr ((add_defaults ''utf8'' Map.empty)(''inputfile'' \<mapsto> PNone, ''format'' \<mapsto> PStr ''pgf'')) \<and>
   resolve_options sample_env ((add_defaults ''utf8'' Map.empty)(''inputfile'' \<mapsto> PNone))
       ''digraph G {d2toutputformat=tikz; a -> b;}'' =
     Inr ((add_defaults ''utf8'' Map.empty)(''inputfile'' \<mapsto> PNone, ''format'' \<mapsto> PStr ''tikz''))"
  by (simp add: quoted_format_graph_def sample_run_simps is_lower_def)

lemma crop_settings:
  "option_settings (split_ws ''--crop'') = Inr [''crop'' \<mapsto> PBool True, ''inputfile'' \<mapsto> PNone]"
  by (simp add: option_settings_def parser_run_simps isspace_def)

text \<open>
  C1 as amended. \<open>base\<close> are the options main is given (from the command line, with an
  attribute \<^verbatim>\<open>format\<close>). The dialect of the base is its \<^verbatim>\<open>format\<close> when that is truthy;
  otherwise the lower-case letters that follow the first \<^verbatim>\<open>d2toutputformat=\<close> in the source,
  when there are some; otherwise the default output format. The first \<^verbatim>\<open>d2toptions\<close> string
  of the source is parsed as command-line arguments, and what the parser assigns
  (\<open>option_settings\<close>) is laid over the base with its dialect: an attribute the string
  assigns, the dialect included, wins, and every other attribute keeps the value of the
  base (or the parser's default, when the base has none). A parser error on the string
  ends main. The code parses the string first and chooses the dialect last; the theorem
  says that this gives the same options.
\<close>

theorem C1_option_precedence:
  assumes "base ''format'' = Some fmt"
  shows "resolve_options env base dotdata =
     (let dialect = (if truthy fmt then fmt
                     else case first_fmtattr dotdata of
                            Some (c # cs) \<Rightarrow> PStr (c # cs)
                          | _ \<Rightarrow> PStr (DEFAULT_OUTPUT_FORMAT env));
          base1 = base(''format'' \<mapsto> dialect)
      in case first_d2toptions dotdata of
           None \<Rightarrow> Inr base1
         | Some s \<Rightarrow>
             (case option_settings (split_ws s) of
                Inl e \<Rightarrow> Inl e
              | Inr settings \<Rightarrow>
                  Inr (add_defaults (DEFAULT_TEXTENCODING env) base1 ++ settings)))"
proof -
  define gfmt where "gfmt = (case first_fmtattr dotdata of Some f \<Rightarrow> PStr f | None \<Rightarrow> PNone)"
  define dialect where "dialect = (if truthy fmt then fmt
                     else case first_fmtattr dotdata of
                            Some (c # cs) \<Rightarrow> PStr (c # cs)
                          | _ \<Rightarrow> PStr (DEFAULT_OUTPUT_FORMAT env))"
  have d: "(if truthy fmt then fmt else if truthy gfmt then gfmt
            else PStr (DEFAULT_OUTPUT_FORMAT env)) = dialect"
    by (auto simp: dialect_def gfmt_def split: option.splits list.splits)
  define F where "F = (\<lambda>x :: namespace.
     case getattr x ''format'' of
       Inl e \<Rightarrow> Inl e
     | Inr fmt \<Rightarrow>
         Inr (x(''format'' \<mapsto>
           (if truthy fmt then fmt else if truthy gfmt then gfmt
            else PStr (DEFAULT_OUTPUT_FORMAT env)))))"
  have res: "resolve_options env base dotdata =
      (case (case first_d2toptions dotdata of
               None \<Rightarrow> Inr base
             | Some s \<Rightarrow> parse_args (DEFAULT_TEXTENCODING env) (split_ws s) base) of
         Inl e \<Rightarrow> Inl e
       | Inr x' \<Rightarrow> F x')"
    by (auto simp: resolve_options_def F_def gfmt_def Let_def split: sum.splits option.splits)
  have Fb: "F base = Inr (base(''format'' \<mapsto> dialect))"
    using assms d by (simp add: F_def getattr_def)
  have Fm: "F (add_defaults denc base ++ m) =
      Inr (add_defaults denc (base(''format'' \<mapsto> dialect)) ++ m)"
    if m: "option_settings args = Inr m" for denc args m
  proof (cases "m ''format''")
    case None
    then have "(add_defaults denc base ++ m) ''format'' = Some fmt"
      using assms by (simp add: add_defaults_def map_add_def)
    moreover have "(add_defaults denc base ++ m)(''format'' \<mapsto> dialect) =
        add_defaults denc (base(''format'' \<mapsto> dialect)) ++ m"
      using None by (auto simp: add_defaults_def map_add_def fun_eq_iff split: option.splits)
    ultimately show ?thesis using d by (simp add: F_def getattr_def)
  next
    case (Some f)
    have t: "truthy f" using option_settings_format [OF m Some] .
    have "(add_defaults denc base ++ m) ''format'' = Some f"
      using Some by (simp add: map_add_def)
    moreover have "(add_defaults denc base ++ m)(''format'' \<mapsto> f) =
        add_defaults denc (base(''format'' \<mapsto> dialect)) ++ m"
      using Some by (auto simp: add_defaults_def map_add_def fun_eq_iff split: option.splits)
    ultimately show ?thesis using t by (simp add: F_def getattr_def)
  qed
  show ?thesis
  proof (cases "first_d2toptions dotdata")
    case None
    then show ?thesis using Fb by (simp add: res dialect_def Let_def)
  next
    case (Some s)
    show ?thesis
    proof (cases "option_settings (split_ws s)")
      case (Inl e)
      with Some show ?thesis by (simp add: res parse_args_settings Let_def)
    next
      case (Inr m)
      with Some Fm [OF Inr, of "DEFAULT_TEXTENCODING env"] show ?thesis
        by (simp add: res parse_args_settings dialect_def Let_def)
    qed
  qed
qed

theorem C1_option_precedence_witness:
  "((add_defaults ''utf8'' Map.empty)(''inputfile'' \<mapsto> PNone)) ''format'' = Some PNone \<and>
   resolve_options sample_env ((add_defaults ''utf8'' Map.empty)(''inputfile'' \<mapsto> PNone))
       format_options_graph =
     Inr (add_defaults ''utf8''
            ((add_defaults ''utf8'' Map.empty)(''inputfile'' \<mapsto> PNone, ''format'' \<mapsto> PStr ''tikz'')) ++
          [''crop'' \<mapsto> PBool True, ''inputfile'' \<mapsto> PNone])"
proof -
  have a: "((add_defaults ''utf8'' Map.empty)(''inputfile'' \<mapsto> PNone)) ''format'' = Some PNone"
    by (simp add: add_defaults_def defaults_def)
  have f: "first_fmtattr format_options_graph = Some ''tikz''"
    by (simp add: format_options_graph_def is_lower_def LF_def DQUOTE_def)
  have o: "first_d2toptions format_options_graph = Some ''--crop''"
    by (simp add: format_options_graph_def first_d2toptions_def d2toptions_at_def isspace_def
        LF_def DQUOTE_def)
  have e: "DEFAULT_TEXTENCODING sample_env = ''utf8''" by (simp add: sample_env_def)
  show ?thesis
    using C1_option_precedence [where base = "(add_defaults ''utf8'' Map.empty)(''inputfile'' \<mapsto> PNone)"
        and fmt = PNone and env = sample_env and dotdata = format_options_graph, OF a] a
    by (simp add: f o e crop_settings)
qed

end
